theory Spec2Isabelle
  imports Main
begin

text \<open>
  A shallow embedding of the conversational agent: the tools of package \<^verbatim>\<open>tools\<close> (the
  line-addressed file edit above all), the gateway of package \<^verbatim>\<open>llm\<close>, and the
  orchestrator of package \<^verbatim>\<open>agent\<close> with its persisted transcript. Errors and panics
  are values, the file system and the trace of queries are passed explicitly, and what
  the program takes from Go's library or from the network is a parameter. The
  definitions come first, the properties after them.
\<close>

section \<open>Go strings as byte lists\<close>

text \<open>
  A Go \<^verbatim>\<open>string\<close> is a sequence of bytes; it is modelled as a \<^typ>\<open>string\<close>
  (a list of 8-bit characters), so \<^term>\<open>length\<close> is Go's \<^verbatim>\<open>len\<close>. The functions
  of package \<^verbatim>\<open>strings\<close> that work on bytes are defined here; those that decode
  Unicode are parameters (record \<open>golib\<close> below).
\<close>

definition NL :: char where
  "NL = CHR 0x0A"

text \<open>\<^verbatim>\<open>strings.HasPrefix(s, prefix)\<close> and \<^verbatim>\<open>strings.HasSuffix(s, suffix)\<close>.\<close>

definition HasPrefix :: "string \<Rightarrow> string \<Rightarrow> bool" where
  "HasPrefix s pre = (take (length pre) s = pre)"

definition HasSuffix :: "string \<Rightarrow> string \<Rightarrow> bool" where
  "HasSuffix s suffix =
     (length suffix \<le> length s \<and> drop (length s - length suffix) s = suffix)"

text \<open>
  \<^verbatim>\<open>strings.Index(s, substr)\<close>: the index of the first occurrence, or -1;
  \<^verbatim>\<open>strings.LastIndex\<close>: that of the last one; \<^verbatim>\<open>strings.Contains\<close> is
  \<^verbatim>\<open>Index(s, substr) >= 0\<close>.
\<close>

fun Index :: "string \<Rightarrow> string \<Rightarrow> int" where
  "Index [] substr = (if substr = [] then 0 else -1)"
| "Index (c # cs) substr =
     (if HasPrefix (c # cs) substr then 0
      else (let i = Index cs substr in if i = -1 then -1 else i + 1))"

fun LastIndex :: "string \<Rightarrow> string \<Rightarrow> int" where
  "LastIndex [] substr = (if substr = [] then 0 else -1)"
| "LastIndex (c # cs) substr =
     (let i = LastIndex cs substr in
      if i \<noteq> -1 then i + 1
      else if HasPrefix (c # cs) substr then 0 else -1)"

definition Contains :: "string \<Rightarrow> string \<Rightarrow> bool" where
  "Contains s substr = (Index s substr \<ge> 0)"

text \<open>\<^verbatim>\<open>strings.Split(s, sep)\<close> for a separator of one byte: always at least one field.\<close>

fun Split :: "string \<Rightarrow> char \<Rightarrow> string list" where
  "Split [] sep = [[]]"
| "Split (c # cs) sep =
     (if c = sep then [] # Split cs sep
      else (case Split cs sep of [] \<Rightarrow> [[c]] | l # ls \<Rightarrow> (c # l) # ls))"

text \<open>\<^verbatim>\<open>strings.Join(elems, sep)\<close> for a separator of one byte.\<close>

fun Join :: "string list \<Rightarrow> char \<Rightarrow> string" where
  "Join [] sep = []"
| "Join [l] sep = l"
| "Join (l # l' # ls) sep = l @ sep # Join (l' # ls) sep"

text \<open>
  \<^verbatim>\<open>strings.ReplaceAll(s, old, new)\<close> for a non-empty \<open>old\<close>: the occurrences are
  replaced from the left, without overlap. (With an empty \<open>old\<close> Go inserts \<open>new\<close>
  around every rune; the program never does that, and the model returns \<open>s\<close>.)
\<close>

function ReplaceAll :: "string \<Rightarrow> string \<Rightarrow> string \<Rightarrow> string" where
  "ReplaceAll [] old new = []"
| "ReplaceAll (c # cs) old new =
     (if old \<noteq> [] \<and> HasPrefix (c # cs) old
      then new @ ReplaceAll (drop (length old) (c # cs)) old new
      else c # ReplaceAll cs old new)"
  by pat_completeness auto
termination
  by (relation "measure (\<lambda>(s, old, new). length s)") auto

text \<open>
  Decimal rendering of a non-negative number, as \<^verbatim>\<open>%d\<close> of \<^verbatim>\<open>fmt\<close> prints a
  length.
\<close>

definition digit :: "nat \<Rightarrow> char" where
  "digit d = ''0123456789'' ! d"

function Itoa :: "nat \<Rightarrow> string" where
  "Itoa n = (if n < 10 then [digit n] else Itoa (n div 10) @ [digit (n mod 10)])"
  by pat_completeness auto
termination
  by (relation "measure (\<lambda>n. n)") auto

declare Itoa.simps [simp del]

text \<open>
  The ASCII path of \<^verbatim>\<open>strings.ToLower\<close>: a string of bytes below 128 has its
  letters \<^verbatim>\<open>A\<close>-\<^verbatim>\<open>Z\<close> moved to \<^verbatim>\<open>a\<close>-\<^verbatim>\<open>z\<close>, byte by byte.
\<close>

definition isASCII :: "string \<Rightarrow> bool" where
  "isASCII s = list_all (\<lambda>c. (of_char c :: nat) < 128) s"

definition lower_byte :: "char \<Rightarrow> char" where
  "lower_byte c =
     (if (65::nat) \<le> of_char c \<and> (of_char c :: nat) \<le> 90 then char_of (of_char c + (32::nat))
      else c)"

section \<open>Errors\<close>

text \<open>An error of the operating system: \<^verbatim>\<open>os.IsNotExist\<close> holds of the first one only.\<close>

datatype os_error = ErrNotExist | ErrIsDirectory | ErrOther string

text \<open>
  Every \<^verbatim>\<open>fmt.Errorf\<close> of the program is a constructor; a wrapped error (\<^verbatim>\<open>%w\<close>,
  \<^verbatim>\<open>%v\<close>) or a formatted value is its argument. \<open>OSError\<close> and \<open>JSONError\<close> are
  errors of the library returned as they are; \<open>Panic\<close> is a Go run-time panic.
\<close>

datatype error =
    InvalidJSON string string
  | FilePathRequired
  | OperationRequired
  | FailedToCreate os_error
  | FileNotFound string
  | ErrorAccessing os_error
  | IsADirectory string
  | FailedToRead os_error
  | StartLineOutOfRange nat
  | UnsupportedOperation string
  | FailedToWrite os_error
  | OSError os_error
  | JSONError string
  | ToolNotFound string
  | ToolExecutionError error
  | MarshalPayloadFailed string
  | CreateRequestFailed string
  | SendRequestFailed string
  | APIError nat "string option"
  | DecodeResponseFailed string
  | NoResponse
  | NoTextContent
  | Panic string

text \<open>The text of the range error of \<^verbatim>\<open>FileEditTool.Execute\<close>.\<close>

definition start_line_message :: "nat \<Rightarrow> string" where
  "start_line_message n = ''start_line out of range: valid range is 1-'' @ Itoa n"

section \<open>The file system\<close>

text \<open>
  The part of the operating system the tools touch: a map from paths to nodes, and the
  faults of \<^verbatim>\<open>os.Stat\<close>, \<^verbatim>\<open>ReadFile\<close> and \<^verbatim>\<open>WriteFile\<close> (permissions, I/O
  errors) as three maps from a path to the error the operating system gives there. A
  failed write leaves the model's file system as it was.
\<close>

datatype node = RegularFile string nat | Directory nat

record filesys =
  nodes :: "string \<rightharpoonup> node"
  stat_error :: "string \<rightharpoonup> string"
  read_error :: "string \<rightharpoonup> string"
  write_error :: "string \<rightharpoonup> string"

datatype stat_result = NotExist | StatFailed os_error | FileInfo bool nat

definition Stat :: "filesys \<Rightarrow> string \<Rightarrow> stat_result" where
  "Stat fs path =
     (case stat_error fs path of
        Some e \<Rightarrow> StatFailed (ErrOther e)
      | None \<Rightarrow>
          (case nodes fs path of
             None \<Rightarrow> NotExist
           | Some (RegularFile c m) \<Rightarrow> FileInfo False m
           | Some (Directory m) \<Rightarrow> FileInfo True m))"

definition ReadFile :: "filesys \<Rightarrow> string \<Rightarrow> os_error + string" where
  "ReadFile fs path =
     (case read_error fs path of
        Some e \<Rightarrow> Inl (ErrOther e)
      | None \<Rightarrow>
          (case nodes fs path of
             None \<Rightarrow> Inl ErrNotExist
           | Some (RegularFile c m) \<Rightarrow> Inr c
           | Some (Directory m) \<Rightarrow> Inl ErrIsDirectory))"

text \<open>
  \<^verbatim>\<open>WriteFile(path, data, perm)\<close> truncates an existing file and keeps its mode;
  \<open>perm\<close> is used only when the file is created.
\<close>

definition WriteFile :: "filesys \<Rightarrow> string \<Rightarrow> string \<Rightarrow> nat \<Rightarrow> os_error + filesys" where
  "WriteFile fs path data perm =
     (case write_error fs path of
        Some e \<Rightarrow> Inl (ErrOther e)
      | None \<Rightarrow>
          (case nodes fs path of
             None \<Rightarrow> Inr (fs\<lparr>nodes := (nodes fs)(path \<mapsto> RegularFile data perm)\<rparr>)
           | Some (RegularFile c m) \<Rightarrow> Inr (fs\<lparr>nodes := (nodes fs)(path \<mapsto> RegularFile data m)\<rparr>)
           | Some (Directory m) \<Rightarrow> Inl ErrIsDirectory))"

section \<open>Messages, requests and the library\<close>

text \<open>
  \<^verbatim>\<open>agent.Message\<close> and \<^verbatim>\<open>llm.Message\<close> are the same struct; the fields carry the
  names of their JSON tags.
\<close>

record Message =
  role :: string
  content :: string

record FileEditRequest =
  FilePath :: string
  Operation :: string
  Content :: string
  StartLine :: int
  EndLine :: int

record Client =
  apiKey :: string
  endpoint :: string

text \<open>The JSON body of a request to the API: the \<^verbatim>\<open>payload\<close> map of \<^verbatim>\<open>Query\<close>.\<close>

record payload =
  model :: string
  max_tokens :: nat
  messages :: "Message list"
  system :: "string option"

text \<open>
  What sending the request comes to, in the order \<^verbatim>\<open>Query\<close> goes through it:
  \<^verbatim>\<open>json.Marshal\<close> fails, \<^verbatim>\<open>http.NewRequest\<close> fails, \<^verbatim>\<open>client.Do\<close> fails, a
  status other than 200 (with the decoded error body, if it decodes), or status 200 with
  a body that does not decode or decodes to content blocks (type, text).
\<close>

datatype http_outcome =
    MarshalFails string
  | NewRequestFails string
  | DoFails string
  | StatusNotOK nat "string option"
  | StatusOK "string + (string \<times> string) list"

text \<open>
  The functions of Go's library and of the outside world that the program calls and this
  theory does not define: the Unicode path of \<^verbatim>\<open>strings.ToLower\<close>,
  \<^verbatim>\<open>strings.TrimSpace\<close>, \<^verbatim>\<open>json.Unmarshal\<close> into a \<^verbatim>\<open>FileEditRequest\<close>,
  \<^verbatim>\<open>filepath.Walk\<close> (an error, or the visited paths with their base names), the
  environment variables after \<^verbatim>\<open>godotenv.Load\<close>, and the HTTP exchange (given the
  number of queries made before it). \<open>short_escapes\<close> tells the version of the library:
  from Go 1.22 on, the JSON encoder writes the bytes 8 and 12 of a string as the escapes
  \<^verbatim>\<open>b\<close> and \<^verbatim>\<open>f\<close>, before that as \<^verbatim>\<open>u0008\<close> and \<^verbatim>\<open>u000c\<close>.
\<close>

record golib =
  unicode_lower :: "string \<Rightarrow> string"
  TrimSpace :: "string \<Rightarrow> string"
  Unmarshal_request :: "string \<Rightarrow> string + FileEditRequest"
  Walk :: "filesys \<Rightarrow> string \<Rightarrow> os_error + (string \<times> string) list"
  Getenv :: "string \<Rightarrow> string"
  transport :: "nat \<Rightarrow> Client \<Rightarrow> payload \<Rightarrow> http_outcome"
  short_escapes :: bool

text \<open>\<^verbatim>\<open>strings.ToLower\<close>.\<close>

definition ToLower :: "golib \<Rightarrow> string \<Rightarrow> string" where
  "ToLower lib s = (if isASCII s then map lower_byte s else unicode_lower lib s)"

section \<open>The tools\<close>

text \<open>
  The \<^verbatim>\<open>switch request.Operation\<close> of \<^verbatim>\<open>FileEditTool.Execute\<close>: the new content
  of the file from its current content. \<^verbatim>\<open>StartLine\<close> and \<^verbatim>\<open>EndLine\<close> are
  Go \<^verbatim>\<open>int\<close>s; they are only compared, and \<^verbatim>\<open>StartLine-1\<close> is computed when
  \<^verbatim>\<open>StartLine\<close> is at least 1, so no operation on them can overflow. The guards keep
  both slice expressions \<^verbatim>\<open>lines[:StartLine-1]\<close> and \<^verbatim>\<open>lines[EndLine:]\<close> in range.
  The inner \<^verbatim>\<open>append\<close> writes to the array of \<^verbatim>\<open>strings.Split(request.Content)\<close>
  or to a fresh one, never to that of \<^verbatim>\<open>lines\<close>, so the outer \<^verbatim>\<open>append\<close>, which
  may reuse the array of \<^verbatim>\<open>lines\<close>, copies an intact slice.
\<close>

definition newContent :: "FileEditRequest \<Rightarrow> string \<Rightarrow> error + string" where
  "newContent request currentContent =
     (if Operation request = ''replace'' then
        (if StartLine request = 0 \<and> EndLine request = 0 then Inr (Content request)
         else
           (let lines = Split currentContent NL in
            if StartLine request < 1 \<or> StartLine request > int (length lines)
            then Inl (StartLineOutOfRange (length lines))
            else
              (let endLine =
                 (if EndLine request < StartLine request \<or> EndLine request > int (length lines)
                  then int (length lines) else EndLine request)
               in Inr (Join (take (nat (StartLine request - 1)) lines
                             @ (Split (Content request) NL @ drop (nat endLine) lines)) NL))))
      else if Operation request = ''append'' then
        (if HasSuffix currentContent [NL] then Inr (currentContent @ Content request)
         else Inr (currentContent @ ([NL] @ Content request)))
      else Inl (UnsupportedOperation (Operation request)))"

text \<open>
  \<^verbatim>\<open>FileEditTool.Execute\<close>, given \<^verbatim>\<open>json.Unmarshal\<close> into a
  \<^verbatim>\<open>FileEditRequest\<close> (the error text or the parsed request). The diagnostic
  \<^verbatim>\<open>fmt.Printf\<close> of the input is not modelled. The mode \<^verbatim>\<open>0644\<close> is 420.
\<close>

definition Execute_FileEdit ::
  "(string \<Rightarrow> string + FileEditRequest) \<Rightarrow> string \<Rightarrow> filesys \<Rightarrow> (error + string) \<times> filesys" where
  "Execute_FileEdit unmarshal input fs =
     (case unmarshal input of
        Inl e \<Rightarrow> (Inl (InvalidJSON e input), fs)
      | Inr request \<Rightarrow>
          if FilePath request = [] then (Inl FilePathRequired, fs)
          else if Operation request = [] then (Inl OperationRequired, fs)
          else
            (case Stat fs (FilePath request) of
               NotExist \<Rightarrow>
                 if Content request \<noteq> [] then
                   (case WriteFile fs (FilePath request) (Content request) 420 of
                      Inl e \<Rightarrow> (Inl (FailedToCreate e), fs)
                    | Inr fs' \<Rightarrow>
                        (Inr (''Created new file '' @ FilePath request @ '' with ''
                              @ Itoa (length (Content request)) @ '' bytes''), fs'))
                 else (Inl (FileNotFound (FilePath request)), fs)
             | StatFailed e \<Rightarrow> (Inl (ErrorAccessing e), fs)
             | FileInfo isDir mode \<Rightarrow>
                 if isDir then (Inl (IsADirectory (FilePath request)), fs)
                 else
                   (case ReadFile fs (FilePath request) of
                      Inl e \<Rightarrow> (Inl (FailedToRead e), fs)
                    | Inr currentContent \<Rightarrow>
                        (case newContent request currentContent of
                           Inl e \<Rightarrow> (Inl e, fs)
                         | Inr new \<Rightarrow>
                             (case WriteFile fs (FilePath request) new mode of
                                Inl e \<Rightarrow> (Inl (FailedToWrite e), fs)
                              | Inr fs' \<Rightarrow>
                                  (Inr (''Successfully edited '' @ FilePath request @ '' (''
                                        @ Itoa (length new) @ '' bytes written)''), fs'))))))"

text \<open>The interface \<^verbatim>\<open>Tool\<close> has four implementations; \<open>FileSearchTool\<close> holds its \<^verbatim>\<open>RootDir\<close>.\<close>

datatype Tool = WebSearchTool | FileSearchTool string | FileReadTool | FileEditTool

fun GetName :: "Tool \<Rightarrow> string" where
  "GetName WebSearchTool = ''web_search''"
| "GetName (FileSearchTool root) = ''file_search''"
| "GetName FileReadTool = ''file_read''"
| "GetName FileEditTool = ''file_edit''"

fun GetDescription :: "Tool \<Rightarrow> string" where
  "GetDescription WebSearchTool = ''Search the web for information''"
| "GetDescription (FileSearchTool root) = ''Search for files by name in the filesystem''"
| "GetDescription FileReadTool = ''Read the contents of a file at the specified path''"
| "GetDescription FileEditTool =
     ''Edit a file - can replace entire file, replace specific lines, or append content (input is JSON)''"

definition Execute_WebSearch :: "golib \<Rightarrow> string \<Rightarrow> error + string" where
  "Execute_WebSearch lib input =
     (let query = TrimSpace lib input in
      Inr (''Mock search results for '' @ [CHR 0x27] @ query @ [CHR 0x27]
           @ '': [Result 1, Result 2, Result 3]''))"

definition Execute_FileSearch :: "golib \<Rightarrow> string \<Rightarrow> string \<Rightarrow> filesys \<Rightarrow> error + string" where
  "Execute_FileSearch lib RootDir input fs =
     (let searchTerm = TrimSpace lib input in
      case Walk lib fs RootDir of
        Inl e \<Rightarrow> Inl (OSError e)
      | Inr visited \<Rightarrow>
          (let matchedFiles =
             map fst (filter (\<lambda>(path, name). Contains (ToLower lib name) (ToLower lib searchTerm))
                        visited)
           in if length matchedFiles = 0
              then Inr (''No files matching '' @ [CHR 0x27] @ searchTerm @ [CHR 0x27] @ '' found'')
              else Inr (''Files matching '' @ [CHR 0x27] @ searchTerm @ [CHR 0x27] @ '':'' @ [NL]
                        @ concat (map (\<lambda>file. ''- '' @ file @ [NL]) matchedFiles))))"

definition Execute_FileRead :: "golib \<Rightarrow> string \<Rightarrow> filesys \<Rightarrow> error + string" where
  "Execute_FileRead lib input fs =
     (let filePath = TrimSpace lib input in
      if Stat fs filePath = NotExist then Inl (FileNotFound filePath)
      else (case ReadFile fs filePath of
              Inl e \<Rightarrow> Inl (OSError e)
            | Inr data \<Rightarrow> Inr data))"

text \<open>\<^verbatim>\<open>tool.Execute(input)\<close>: the dynamic dispatch on the implementation.\<close>

fun Execute :: "golib \<Rightarrow> Tool \<Rightarrow> string \<Rightarrow> filesys \<Rightarrow> (error + string) \<times> filesys" where
  "Execute lib WebSearchTool input fs = (Execute_WebSearch lib input, fs)"
| "Execute lib (FileSearchTool root) input fs = (Execute_FileSearch lib root input fs, fs)"
| "Execute lib FileReadTool input fs = (Execute_FileRead lib input fs, fs)"
| "Execute lib FileEditTool input fs = Execute_FileEdit (Unmarshal_request lib) input fs"

section \<open>The gateway: package llm\<close>

definition NewClient :: "golib \<Rightarrow> Client" where
  "NewClient lib =
     \<lparr>apiKey = Getenv lib ''ANTHROPIC_API_KEY'',
      endpoint = (if Getenv lib ''ANTHROPIC_ENDPOINT'' = []
                  then ''https://api.anthropic.com/v1/messages''
                  else Getenv lib ''ANTHROPIC_ENDPOINT'')\<rparr>"

text \<open>
  One round of the loop of \<^verbatim>\<open>Query\<close> over the messages; the state is
  \<^verbatim>\<open>systemPrompt\<close> and \<^verbatim>\<open>apiMessages\<close>. A message of any other role changes
  nothing.
\<close>

definition collect :: "string \<times> Message list \<Rightarrow> Message \<Rightarrow> string \<times> Message list" where
  "collect st msg =
     (case st of (systemPrompt, apiMessages) \<Rightarrow>
        if role msg = ''system'' then (content msg, apiMessages)
        else if role msg = ''user'' \<or> role msg = ''assistant''
        then (systemPrompt, apiMessages @ [\<lparr>role = role msg, content = content msg\<rparr>])
        else if role msg = ''tool''
        then (systemPrompt,
              apiMessages @ [\<lparr>role = ''user'', content = ''[Tool Output] '' @ content msg\<rparr>])
        else (systemPrompt, apiMessages))"

text \<open>The \<^verbatim>\<open>payload\<close> of \<^verbatim>\<open>Query\<close>: the key \<^verbatim>\<open>system\<close> is set when the prompt is not empty.\<close>

definition build_payload :: "Message list \<Rightarrow> payload" where
  "build_payload msgs =
     (case foldl collect ([], []) msgs of (systemPrompt, apiMessages) \<Rightarrow>
        \<lparr>model = ''claude-3-5-sonnet-20241022'',
         max_tokens = 1024,
         messages = apiMessages,
         system = (if systemPrompt \<noteq> [] then Some systemPrompt else None)\<rparr>)"

text \<open>The second half of \<^verbatim>\<open>Query\<close>: from the outcome of the exchange to the reply.\<close>

definition read_response :: "http_outcome \<Rightarrow> error + string" where
  "read_response outcome =
     (case outcome of
        MarshalFails e \<Rightarrow> Inl (MarshalPayloadFailed e)
      | NewRequestFails e \<Rightarrow> Inl (CreateRequestFailed e)
      | DoFails e \<Rightarrow> Inl (SendRequestFailed e)
      | StatusNotOK status body \<Rightarrow> Inl (APIError status body)
      | StatusOK (Inl e) \<Rightarrow> Inl (DecodeResponseFailed e)
      | StatusOK (Inr blocks) \<Rightarrow>
          if length blocks = 0 then Inl NoResponse
          else
            (let responseText = concat (map snd (filter (\<lambda>b. fst b = ''text'') blocks))
             in if responseText = [] then Inl NoTextContent else Inr responseText))"

text \<open>
  \<^verbatim>\<open>Client.Query\<close>, given the HTTP exchange \<open>http\<close>, which receives the client (for the
  endpoint and the key in the headers) and the payload. Without an API key, the reply is
  made of \<^verbatim>\<open>messages[len(messages)-1]\<close>, which panics on an empty slice.
\<close>

definition Query :: "(Client \<Rightarrow> payload \<Rightarrow> http_outcome) \<Rightarrow> Client \<Rightarrow> Message list \<Rightarrow> error + string" where
  "Query http c msgs =
     (if apiKey c = [] then
        (if msgs = [] then Inl (Panic ''index out of range [-1]'')
         else Inr (''Mock Claude response to: '' @ content (last msgs)))
      else read_response (http c (build_payload msgs)))"

section \<open>The persisted transcript: JSON\<close>

text \<open>
  \<^verbatim>\<open>SaveContext\<close> and \<^verbatim>\<open>loadContext\<close> go through \<^verbatim>\<open>json.MarshalIndent\<close> and
  \<^verbatim>\<open>json.Unmarshal\<close> of Go's library, on a \<^verbatim>\<open>[]Message\<close>. They are not code of the
  repository; this section models them from the library's documentation and source, as
  far as the documents \<^verbatim>\<open>SaveContext\<close> writes need it: the encoder in full for a list of
  messages (a nil slice, which Go writes as \<^verbatim>\<open>null\<close>, is the empty list here), the decoder
  on arrays of objects whose members are the strings \<^verbatim>\<open>role\<close> and \<^verbatim>\<open>content\<close>, with
  any white space. On every other document the decoder of the model gives an error, which
  then stands for a syntax error or for behaviour that is not modelled (other keys,
  missing keys, values that are not strings).
\<close>

subsection \<open>UTF-8\<close>

text \<open>
  The length of the UTF-8 sequence at the head of a string, or 0 when there is none
  (\<^verbatim>\<open>utf8.DecodeRune\<close> then returns \<^verbatim>\<open>RuneError\<close> with size 1): the table of first
  bytes and accepted ranges of package \<^verbatim>\<open>utf8\<close>, which excludes overlong forms,
  surrogates and values above \<^verbatim>\<open>U+10FFFF\<close>.
\<close>

definition byte :: "char \<Rightarrow> nat" where
  "byte c = of_char c"

definition between :: "nat \<Rightarrow> nat \<Rightarrow> char \<Rightarrow> bool" where
  "between lo hi c = (lo \<le> byte c \<and> byte c \<le> hi)"

definition rune_size :: "string \<Rightarrow> nat" where
  "rune_size s =
     (case s of
        [] \<Rightarrow> 0
      | b0 # r \<Rightarrow>
          if byte b0 < 0x80 then 1
          else if between 0xC2 0xDF b0 then
            (case r of
               b1 # _ \<Rightarrow> if between 0x80 0xBF b1 then 2 else 0
             | _ \<Rightarrow> 0)
          else if between 0xE0 0xEF b0 then
            (case r of
               b1 # b2 # _ \<Rightarrow>
                 if between (if byte b0 = 0xE0 then 0xA0 else 0x80)
                            (if byte b0 = 0xED then 0x9F else 0xBF) b1
                    \<and> between 0x80 0xBF b2
                 then 3 else 0
             | _ \<Rightarrow> 0)
          else if between 0xF0 0xF4 b0 then
            (case r of
               b1 # b2 # b3 # _ \<Rightarrow>
                 if between (if byte b0 = 0xF0 then 0x90 else 0x80)
                            (if byte b0 = 0xF4 then 0x8F else 0xBF) b1
                    \<and> between 0x80 0xBF b2 \<and> between 0x80 0xBF b3
                 then 4 else 0
             | _ \<Rightarrow> 0)
          else 0)"

text \<open>\<^verbatim>\<open>utf8.ValidString\<close>.\<close>

function valid_utf8 :: "string \<Rightarrow> bool" where
  "valid_utf8 [] = True"
| "valid_utf8 (b # bs) =
     (if rune_size (b # bs) = 0 then False
      else valid_utf8 (drop (rune_size (b # bs)) (b # bs)))"
  by pat_completeness auto
termination
  by (relation "measure length") auto

text \<open>The encoding of \<^verbatim>\<open>U+FFFD\<close>, the replacement character.\<close>

definition replacement :: string where
  "replacement = [CHR 0xEF, CHR 0xBF, CHR 0xBD]"

text \<open>\<^verbatim>\<open>utf8.EncodeRune\<close>.\<close>

definition EncodeRune :: "nat \<Rightarrow> string" where
  "EncodeRune r =
     (if r < 0x80 then [char_of r]
      else if r < 0x800 then [char_of (0xC0 + r div 64), char_of (0x80 + r mod 64)]
      else if (0xD800 \<le> r \<and> r < 0xE000) \<or> 0x10FFFF < r then replacement
      else if r < 0x10000 then
        [char_of (0xE0 + r div 4096), char_of (0x80 + r div 64 mod 64), char_of (0x80 + r mod 64)]
      else
        [char_of (0xF0 + r div 262144), char_of (0x80 + r div 4096 mod 64),
         char_of (0x80 + r div 64 mod 64), char_of (0x80 + r mod 64)])"

subsection \<open>Strings in JSON\<close>

text \<open>
  The encoder of a string (\<^verbatim>\<open>appendString\<close> with \<^verbatim>\<open>escapeHTML\<close> set, as
  \<^verbatim>\<open>Marshal\<close> does): a byte below 128 is copied when it is at least a blank and none of
  the double quote, the backslash, \<^verbatim>\<open><\<close>, \<^verbatim>\<open>>\<close>, \<^verbatim>\<open>&\<close>, else escaped (\<open>short\<close> is
  \<open>short_escapes\<close> of the library); a byte that
  starts no valid UTF-8 sequence becomes the escape of \<^verbatim>\<open>U+FFFD\<close>; \<^verbatim>\<open>U+2028\<close> and
  \<^verbatim>\<open>U+2029\<close> are escaped; any other sequence is copied.
\<close>

definition hex :: "nat \<Rightarrow> char" where
  "hex d = ''0123456789abcdef'' ! d"

definition htmlSafe :: "char \<Rightarrow> bool" where
  "htmlSafe c =
     (0x20 \<le> byte c \<and> c \<noteq> CHR 0x22 \<and> c \<noteq> CHR 0x5C
      \<and> c \<noteq> CHR ''<'' \<and> c \<noteq> CHR ''>'' \<and> c \<noteq> CHR ''&'')"

definition escape_byte :: "bool \<Rightarrow> char \<Rightarrow> string" where
  "escape_byte short c =
     (if c = CHR 0x5C \<or> c = CHR 0x22 then [CHR 0x5C, c]
      else if short \<and> c = CHR 0x08 then [CHR 0x5C, CHR ''b'']
      else if short \<and> c = CHR 0x0C then [CHR 0x5C, CHR ''f'']
      else if c = CHR 0x0A then [CHR 0x5C, CHR ''n'']
      else if c = CHR 0x0D then [CHR 0x5C, CHR ''r'']
      else if c = CHR 0x09 then [CHR 0x5C, CHR ''t'']
      else [CHR 0x5C, CHR ''u'', CHR ''0'', CHR ''0'', hex (byte c div 16), hex (byte c mod 16)])"

function escape :: "bool \<Rightarrow> string \<Rightarrow> string" where
  "escape short [] = []"
| "escape short (b # bs) =
     (if byte b < 0x80 then
        (if htmlSafe b then b # escape short bs else escape_byte short b @ escape short bs)
      else if rune_size (b # bs) = 0 then
        [CHR 0x5C, CHR ''u'', CHR ''f'', CHR ''f'', CHR ''f'', CHR ''d''] @ escape short bs
      else if take 3 (b # bs) = [CHR 0xE2, CHR 0x80, CHR 0xA8]
              \<or> take 3 (b # bs) = [CHR 0xE2, CHR 0x80, CHR 0xA9] then
        [CHR 0x5C, CHR ''u'', CHR ''2'', CHR ''0'', CHR ''2'', hex (byte (bs ! 1) mod 16)]
        @ escape short (drop 3 (b # bs))
      else take (rune_size (b # bs)) (b # bs) @ escape short (drop (rune_size (b # bs)) (b # bs)))"
  by pat_completeness auto
termination
  by (relation "measure (\<lambda>(short, s). length s)") auto

definition quote :: "bool \<Rightarrow> string \<Rightarrow> string" where
  "quote short s = [CHR 0x22] @ escape short s @ [CHR 0x22]"

text \<open>
  The decoder of a string: \<open>unquote\<close> reads the text after the opening quote and returns
  the string with the text after the closing quote (\<^verbatim>\<open>unquoteBytes\<close>, on a literal the
  scanner accepted). \<open>getu4\<close> and \<open>unescape_u\<close> read the text after a backslash:
  \<^verbatim>\<open>u\<close> and four hexadecimal digits, a surrogate pair being two such escapes; the result
  is the rune and the number of bytes read. A byte that starts no valid UTF-8 sequence
  becomes \<^verbatim>\<open>U+FFFD\<close>; a valid sequence is decoded and encoded again, which gives the same
  bytes, and the model copies it.
\<close>

definition unhex :: "char \<Rightarrow> nat option" where
  "unhex c =
     (if between 0x30 0x39 c then Some (byte c - 0x30)
      else if between 0x61 0x66 c then Some (byte c - 0x61 + 10)
      else if between 0x41 0x46 c then Some (byte c - 0x41 + 10)
      else None)"

definition getu4 :: "string \<Rightarrow> nat option" where
  "getu4 s =
     (case s of
        u # a # b # c # d # _ \<Rightarrow>
          if u \<noteq> CHR ''u'' then None
          else
            (case (unhex a, unhex b, unhex c, unhex d) of
               (Some x, Some y, Some z, Some w) \<Rightarrow> Some (((x * 16 + y) * 16 + z) * 16 + w)
             | _ \<Rightarrow> None)
      | _ \<Rightarrow> None)"

definition unescape_u :: "string \<Rightarrow> (nat \<times> nat) option" where
  "unescape_u s =
     (case getu4 s of
        None \<Rightarrow> None
      | Some rr \<Rightarrow>
          if 0xD800 \<le> rr \<and> rr < 0xE000 then
            (case (if take 1 (drop 5 s) = [CHR 0x5C] then getu4 (drop 6 s) else None) of
               Some rr1 \<Rightarrow>
                 if rr < 0xDC00 \<and> 0xDC00 \<le> rr1 \<and> rr1 < 0xE000
                 then Some (0x10000 + (rr - 0xD800) * 1024 + (rr1 - 0xDC00), 11)
                 else Some (0xFFFD, 5)
             | None \<Rightarrow> Some (0xFFFD, 5))
          else Some (rr, 5))"

function unquote :: "string \<Rightarrow> (string \<times> string) option" where
  "unquote [] = None"
| "unquote (c # cs) =
     (if c = CHR 0x22 then Some ([], cs)
      else if c = CHR 0x5C then
        (case cs of
           [] \<Rightarrow> None
         | e # cs' \<Rightarrow>
             if e = CHR 0x22 \<or> e = CHR 0x5C \<or> e = CHR ''/'' then
               map_option (\<lambda>(s, rest). (e # s, rest)) (unquote cs')
             else if e = CHR ''b'' then map_option (\<lambda>(s, rest). (CHR 0x08 # s, rest)) (unquote cs')
             else if e = CHR ''f'' then map_option (\<lambda>(s, rest). (CHR 0x0C # s, rest)) (unquote cs')
             else if e = CHR ''n'' then map_option (\<lambda>(s, rest). (CHR 0x0A # s, rest)) (unquote cs')
             else if e = CHR ''r'' then map_option (\<lambda>(s, rest). (CHR 0x0D # s, rest)) (unquote cs')
             else if e = CHR ''t'' then map_option (\<lambda>(s, rest). (CHR 0x09 # s, rest)) (unquote cs')
             else if e = CHR ''u'' then
               (case unescape_u cs of
                  None \<Rightarrow> None
                | Some (r, n) \<Rightarrow>
                    map_option (\<lambda>(s, rest). (EncodeRune r @ s, rest)) (unquote (drop n cs)))
             else None)
      else if byte c < 0x20 then None
      else if byte c < 0x80 then map_option (\<lambda>(s, rest). (c # s, rest)) (unquote cs)
      else if rune_size (c # cs) = 0 then
        map_option (\<lambda>(s, rest). (replacement @ s, rest)) (unquote cs)
      else
        map_option (\<lambda>(s, rest). (take (rune_size (c # cs)) (c # cs) @ s, rest))
          (unquote (drop (rune_size (c # cs)) (c # cs))))"
  by pat_completeness auto
termination
  by (relation "measure length") (auto simp add: unescape_u_def split: option.splits if_splits)

subsection \<open>Documents\<close>

text \<open>
  The tokens of a document; white space separates them. \<open>unquote\<close> consumes its input,
  so \<open>tokenize\<close> terminates.
\<close>

datatype token = LBracket | RBracket | LBrace | RBrace | Colon | Comma | Str string | Null

definition is_space :: "char \<Rightarrow> bool" where
  "is_space c = (c = CHR '' '' \<or> c = CHR 0x09 \<or> c = CHR 0x0D \<or> c = CHR 0x0A)"

function tokenize :: "string \<Rightarrow> token list option" where
  "tokenize [] = Some []"
| "tokenize (c # cs) =
     (if is_space c then tokenize cs
      else if c = CHR ''['' then map_option (Cons LBracket) (tokenize cs)
      else if c = CHR '']'' then map_option (Cons RBracket) (tokenize cs)
      else if c = CHR ''{'' then map_option (Cons LBrace) (tokenize cs)
      else if c = CHR ''}'' then map_option (Cons RBrace) (tokenize cs)
      else if c = CHR '':'' then map_option (Cons Colon) (tokenize cs)
      else if c = CHR '','' then map_option (Cons Comma) (tokenize cs)
      else if c = CHR 0x22 then
        (case unquote cs of
           None \<Rightarrow> None
         | Some (s, rest) \<Rightarrow> map_option (Cons (Str s)) (tokenize rest))
      else if take 4 (c # cs) = ''null'' then map_option (Cons Null) (tokenize (drop 3 cs))
      else None)"
  by pat_completeness auto
termination
proof -
  have step: "rest = cs \<or> (\<exists>t s'. unquote t = Some (s', rest) \<and> length t \<le> length cs)"
    if "unquote (c # cs) = Some (s, rest)" for c cs s rest
  proof (cases "c = CHR 0x22")
    case True
    with that show ?thesis by simp
  next
    case q: False
    show ?thesis
    proof (cases "c = CHR 0x5C")
      case True
      show ?thesis
      proof (cases cs)
        case Nil
        with that q True show ?thesis by simp
      next
        case (Cons e cs')
        show ?thesis
        proof (cases "e = CHR ''u''")
          case True
          with that q \<open>c = CHR 0x5C\<close> Cons
          obtain r n s' where "unquote (drop n cs) = Some (s', rest)"
            by (auto split: option.splits)
          moreover have "length (drop n cs) \<le> length cs" by simp
          ultimately show ?thesis by blast
        next
          case False
          with that q \<open>c = CHR 0x5C\<close> Cons
          obtain s' where "unquote cs' = Some (s', rest)"
            by (auto split: if_splits)
          moreover have "length cs' \<le> length cs" using Cons by simp
          ultimately show ?thesis by blast
        qed
      qed
    next
      case b: False
      show ?thesis
      proof (cases "byte c < 0x80 \<or> rune_size (c # cs) = 0")
        case True
        with that q b obtain s' where "unquote cs = Some (s', rest)"
          by (auto split: if_splits)
        then show ?thesis by auto
      next
        case False
        with that q b obtain s' where "unquote (drop (rune_size (c # cs)) (c # cs)) = Some (s', rest)"
          by (auto split: if_splits)
        moreover have "length (drop (rune_size (c # cs)) (c # cs)) \<le> length cs"
          using False by (simp del: drop_Suc_Cons) arith
        ultimately show ?thesis by blast
      qed
    qed
  qed
  have shorter: "length rest < length cs" if "unquote cs = Some (s, rest)" for cs s rest
    using that
  proof (induction "length cs" arbitrary: cs s rule: less_induct)
    case less
    show ?case
    proof (cases cs)
      case Nil
      with less.prems show ?thesis by simp
    next
      case (Cons c t)
      with less.prems step [of c t s rest]
      consider "rest = t" | u s' where "unquote u = Some (s', rest)" "length u \<le> length t"
        by blast
      then show ?thesis
      proof cases
        case 1
        with Cons show ?thesis by simp
      next
        case 2
        with less.hyps [of u s'] Cons show ?thesis by simp
      qed
    qed
  qed
  show ?thesis
    by (relation "measure length") (auto dest: shorter)
qed

text \<open>
  An object into a \<^verbatim>\<open>Message\<close>: \<open>members\<close> reads the members up to the closing brace
  and stores each value in the field of its key.
\<close>

definition put :: "string \<Rightarrow> string \<Rightarrow> string option \<times> string option \<Rightarrow> (string option \<times> string option) option" where
  "put k v m =
     (if k = ''role'' then Some (Some v, snd m)
      else if k = ''content'' then Some (fst m, Some v)
      else None)"

fun members ::
  "token list \<Rightarrow> string option \<times> string option \<Rightarrow> ((string option \<times> string option) \<times> token list) option" where
  "members (Str k # Colon # Str v # Comma # ts) m =
     (case put k v m of None \<Rightarrow> None | Some m' \<Rightarrow> members ts m')"
| "members (Str k # Colon # Str v # RBrace # ts) m =
     (case put k v m of None \<Rightarrow> None | Some m' \<Rightarrow> Some (m', ts))"
| "members ts m = None"

text \<open>The elements of the array, after the opening bracket and up to the end.\<close>

function elements :: "token list \<Rightarrow> Message list option" where
  "elements ts =
     (case ts of
        LBrace # ts' \<Rightarrow>
          (case members ts' (None, None) of
             Some ((Some r, Some c), [RBracket]) \<Rightarrow> Some [\<lparr>role = r, content = c\<rparr>]
           | Some ((Some r, Some c), Comma # rest) \<Rightarrow>
               map_option (Cons \<lparr>role = r, content = c\<rparr>) (elements rest)
           | _ \<Rightarrow> None)
      | _ \<Rightarrow> None)"
  by pat_completeness auto
termination
proof -
  have shorter: "length rest < length ts" if "members ts m = Some (m', rest)" for ts m m' rest
    using that by (induction ts m rule: members.induct) (auto split: option.splits)
  show ?thesis
    by (relation "measure length") (auto dest: shorter)
qed

declare elements.simps [simp del]

definition document :: "token list \<Rightarrow> Message list option" where
  "document ts =
     (case ts of
        [Null] \<Rightarrow> Some []
      | [LBracket, RBracket] \<Rightarrow> Some []
      | LBracket # ts' \<Rightarrow> elements ts'
      | _ \<Rightarrow> None)"

text \<open>\<^verbatim>\<open>json.Unmarshal(data, &a.context)\<close>: the error text or the new slice.\<close>

definition Unmarshal_messages :: "string \<Rightarrow> string + Message list" where
  "Unmarshal_messages data =
     (case tokenize data of
        None \<Rightarrow> Inl ''invalid or unsupported document''
      | Some ts \<Rightarrow>
          (case document ts of
             None \<Rightarrow> Inl ''invalid or unsupported document''
           | Some ms \<Rightarrow> Inr ms))"

text \<open>
  \<^verbatim>\<open>json.MarshalIndent(a.context, "", "  ")\<close>: one object per message, keys in the order
  of the struct's fields, two blanks per level.
\<close>

definition object_text :: "bool \<Rightarrow> Message \<Rightarrow> string" where
  "object_text short m =
     ''  {'' @ [NL]
     @ ''    \"role\": '' @ quote short (role m) @ '','' @ [NL]
     @ ''    \"content\": '' @ quote short (content m) @ [NL]
     @ ''  }''"

fun objects_text :: "bool \<Rightarrow> Message list \<Rightarrow> string" where
  "objects_text short [] = []"
| "objects_text short [m] = object_text short m"
| "objects_text short (m # m' # ms) =
     object_text short m @ '','' @ [NL] @ objects_text short (m' # ms)"

definition MarshalIndent_messages :: "bool \<Rightarrow> Message list \<Rightarrow> string" where
  "MarshalIndent_messages short ms =
     (if ms = [] then ''[]'' else ''['' @ [NL] @ objects_text short ms @ [NL] @ '']'')"

text \<open>
  What the encoder does to a string, byte for byte: a byte that starts no valid UTF-8
  sequence is replaced by \<^verbatim>\<open>U+FFFD\<close>. \<open>coerce_message\<close> does it to both fields.
\<close>

function coerce :: "string \<Rightarrow> string" where
  "coerce [] = []"
| "coerce (b # bs) =
     (if rune_size (b # bs) = 0 then replacement @ coerce bs
      else take (rune_size (b # bs)) (b # bs) @ coerce (drop (rune_size (b # bs)) (b # bs)))"
  by pat_completeness auto
termination
  by (relation "measure length") auto

definition coerce_message :: "Message \<Rightarrow> Message" where
  "coerce_message m = \<lparr>role = coerce (role m), content = coerce (content m)\<rparr>"

definition valid_message :: "Message \<Rightarrow> bool" where
  "valid_message m = (valid_utf8 (role m) \<and> valid_utf8 (content m))"

text \<open>The tokens of the document that \<open>MarshalIndent_messages\<close> writes.\<close>

definition object_tokens :: "Message \<Rightarrow> token list" where
  "object_tokens m =
     [LBrace, Str ''role'', Colon, Str (coerce (role m)), Comma,
      Str ''content'', Colon, Str (coerce (content m)), RBrace]"

fun objects_tokens :: "Message list \<Rightarrow> token list" where
  "objects_tokens [] = []"
| "objects_tokens [m] = object_tokens m"
| "objects_tokens (m # m' # ms) = object_tokens m @ Comma # objects_tokens (m' # ms)"

section \<open>The orchestrator: package agent\<close>

text \<open>The struct \<^verbatim>\<open>Agent\<close>; its field \<^verbatim>\<open>context\<close> is \<open>ctx\<close> here.\<close>

record Agent =
  ctx :: "Message list"
  contextFile :: string
  llmClient :: Client
  toolRegistry :: "string \<rightharpoonup> Tool"

text \<open>
  What the program acts on: the file system and, as a ghost trace, the transcripts sent
  to \<^verbatim>\<open>Query\<close> so far, in order.
\<close>

record world =
  disk :: filesys
  queried :: "Message list list"

text \<open>
  Go iterates over a map in an order the run time picks anew for each \<^verbatim>\<open>range\<close>.
  Each function with a \<^verbatim>\<open>range a.toolRegistry\<close> takes that order as the list \<open>ks\<close>
  of the keys; \<open>iterates\<close> says that \<open>ks\<close> is such an order.
\<close>

definition iterates :: "(string \<rightharpoonup> Tool) \<Rightarrow> string list \<Rightarrow> bool" where
  "iterates reg ks = (distinct ks \<and> set ks = dom reg)"

definition convertToLLMMessages :: "Message list \<Rightarrow> Message list" where
  "convertToLLMMessages agentMessages =
     map (\<lambda>msg. \<lparr>role = role msg, content = content msg\<rparr>) agentMessages"

fun mentions :: "golib \<Rightarrow> string \<Rightarrow> string list \<Rightarrow> string option" where
  "mentions lib input [] = None"
| "mentions lib input (toolName # ks) =
     (if Contains (ToLower lib input) (ToLower lib toolName) then Some toolName
      else mentions lib input ks)"

definition shouldUseTool :: "golib \<Rightarrow> string list \<Rightarrow> string \<Rightarrow> bool" where
  "shouldUseTool lib ks input =
     (case mentions lib input ks of
        Some toolName \<Rightarrow> True
      | None \<Rightarrow> Contains (ToLower lib input) ''use the'' \<and> Contains (ToLower lib input) ''tool'')"

definition detectToolName :: "golib \<Rightarrow> string list \<Rightarrow> string \<Rightarrow> string" where
  "detectToolName lib ks input =
     (case mentions lib input ks of
        Some toolName \<Rightarrow> toolName
      | None \<Rightarrow> ''web_search'')"

definition phrases :: "string list" where
  "phrases = [''tool'', ''to'', ''with'', ''for'', ''using'', ''use'', ''the'', '':'']"

text \<open>
  \<^verbatim>\<open>extractToolInput\<close>. The index found in the lowercased input is used to slice the
  input itself: \<^verbatim>\<open>input[toolNameIndex+len(toolName):]\<close> panics when that exceeds
  \<^verbatim>\<open>len(input)\<close>.
\<close>

definition extractToolInput :: "golib \<Rightarrow> string \<Rightarrow> string \<Rightarrow> error + string" where
  "extractToolInput lib toolName input =
     (if toolName = ''file_edit'' then
        (let jsonStart = Index input ''{''; jsonEnd = LastIndex input ''}'' in
         if jsonStart \<noteq> -1 \<and> jsonEnd \<noteq> -1 \<and> jsonEnd > jsonStart
         then Inr (take (nat (jsonEnd + 1) - nat jsonStart) (drop (nat jsonStart) input))
         else Inr ''{\"error\": \"Could not extract valid JSON from input. Please provide a valid JSON object with file_path, operation, and content fields.\"}'')
      else
        (let toolNameIndex = Index (ToLower lib input) (ToLower lib toolName) in
         if toolNameIndex = -1 then Inr input
         else if nat toolNameIndex + length toolName > length input
         then Inl (Panic ''slice bounds out of range'')
         else
           (let afterToolName = drop (nat toolNameIndex + length toolName) input;
                cleanInput = foldl (\<lambda>cleanInput phrase. ReplaceAll cleanInput phrase []) afterToolName phrases
            in Inr (TrimSpace lib cleanInput))))"

definition executeTool ::
  "golib \<Rightarrow> (string \<rightharpoonup> Tool) \<Rightarrow> string \<Rightarrow> string \<Rightarrow> filesys \<Rightarrow> (error + string) \<times> filesys" where
  "executeTool lib reg toolName input fs =
     (case reg toolName of
        None \<Rightarrow> (Inl (ToolNotFound toolName), fs)
      | Some tool \<Rightarrow>
          (case extractToolInput lib toolName input of
             Inl e \<Rightarrow> (Inl e, fs)
           | Inr toolInput \<Rightarrow> Execute lib tool toolInput fs))"

text \<open>\<^verbatim>\<open>a.llmClient.Query(llmMessages)\<close> in the world: the call is recorded in the trace.\<close>

definition ask :: "golib \<Rightarrow> Client \<Rightarrow> Message list \<Rightarrow> world \<Rightarrow> (error + string) \<times> world" where
  "ask lib c llmMessages w =
     (Query (transport lib (length (queried w))) c llmMessages,
      w\<lparr>queried := queried w @ [llmMessages]\<rparr>)"

text \<open>An error returned by \<^verbatim>\<open>executeTool\<close> is wrapped; a panic is not an error value.\<close>

fun wrap :: "error \<Rightarrow> error" where
  "wrap (Panic p) = Panic p"
| "wrap e = ToolExecutionError e"

text \<open>
  \<^verbatim>\<open>Agent.Process\<close>; \<open>ks1\<close> and \<open>ks2\<close> are the orders of the \<^verbatim>\<open>range\<close> in
  \<^verbatim>\<open>shouldUseTool\<close> and in \<^verbatim>\<open>detectToolName\<close>. The result is the returned pair
  (as a sum), the agent and the world after the call.
\<close>

definition Process ::
  "golib \<Rightarrow> string list \<Rightarrow> string list \<Rightarrow> Agent \<Rightarrow> string \<Rightarrow> world \<Rightarrow> (error + string) \<times> Agent \<times> world" where
  "Process lib ks1 ks2 a input w =
     (let a1 = a\<lparr>ctx := ctx a @ [\<lparr>role = ''user'', content = input\<rparr>]\<rparr> in
      case ask lib (llmClient a1) (convertToLLMMessages (ctx a1)) w of
        (Inl err, w1) \<Rightarrow> (Inl err, a1, w1)
      | (Inr llmResponse, w1) \<Rightarrow>
          if shouldUseTool lib ks1 llmResponse then
            (let toolName = detectToolName lib ks2 llmResponse;
                 a2 = a1\<lparr>ctx := ctx a1 @ [\<lparr>role = ''assistant'', content = llmResponse\<rparr>]\<rparr>
             in case executeTool lib (toolRegistry a2) toolName llmResponse (disk w1) of
                  (Inl err, d) \<Rightarrow> (Inl (wrap err), a2, w1\<lparr>disk := d\<rparr>)
                | (Inr toolResponse, d) \<Rightarrow>
                    (let toolRoleMessage =
                           ''Tool '' @ [CHR 0x27] @ toolName @ [CHR 0x27] @ '' returned: '' @ toolResponse;
                         a3 = a2\<lparr>ctx := ctx a2 @ [\<lparr>role = ''tool'', content = toolRoleMessage\<rparr>]\<rparr>
                     in case ask lib (llmClient a3) (convertToLLMMessages (ctx a3)) (w1\<lparr>disk := d\<rparr>) of
                          (Inl err, w2) \<Rightarrow> (Inl err, a3, w2)
                        | (Inr finalResponse, w2) \<Rightarrow>
                            (Inr finalResponse,
                             a3\<lparr>ctx := ctx a3 @ [\<lparr>role = ''assistant'', content = finalResponse\<rparr>]\<rparr>,
                             w2)))
          else
            (Inr llmResponse,
             a1\<lparr>ctx := ctx a1 @ [\<lparr>role = ''assistant'', content = llmResponse\<rparr>]\<rparr>,
             w1))"

text \<open>\<^verbatim>\<open>os.IsNotExist(err)\<close> on an error of the program.\<close>

definition IsNotExist :: "error \<Rightarrow> bool" where
  "IsNotExist err = (err = OSError ErrNotExist)"

text \<open>
  \<^verbatim>\<open>loadContext\<close> and \<^verbatim>\<open>SaveContext\<close>: the returned error, if any, with the agent
  or the world after the call. \<^verbatim>\<open>json.MarshalIndent\<close> cannot fail on a slice of structs
  of strings, so that branch of \<^verbatim>\<open>SaveContext\<close> has no counterpart. When
  \<^verbatim>\<open>json.Unmarshal\<close> fails the model leaves the \<^verbatim>\<open>context\<close> as it was.
\<close>

definition loadContext :: "Agent \<Rightarrow> world \<Rightarrow> error option \<times> Agent" where
  "loadContext a w =
     (case ReadFile (disk w) (contextFile a) of
        Inl err \<Rightarrow> (Some (OSError err), a)
      | Inr data \<Rightarrow>
          (case Unmarshal_messages data of
             Inl err \<Rightarrow> (Some (JSONError err), a)
           | Inr c \<Rightarrow> (None, a\<lparr>ctx := c\<rparr>)))"

definition SaveContext :: "golib \<Rightarrow> Agent \<Rightarrow> world \<Rightarrow> error option \<times> world" where
  "SaveContext lib a w =
     (let data = MarshalIndent_messages (short_escapes lib) (ctx a) in
      case WriteFile (disk w) (contextFile a) data 420 of
        Inl err \<Rightarrow> (Some (OSError err), w)
      | Inr d \<Rightarrow> (None, w\<lparr>disk := d\<rparr>))"

text \<open>The registry \<^verbatim>\<open>NewAgent\<close> builds: four assignments to an empty map.\<close>

definition NewAgent_toolRegistry :: "string \<rightharpoonup> Tool" where
  "NewAgent_toolRegistry =
     (((Map.empty
        (GetName WebSearchTool \<mapsto> WebSearchTool))
        (GetName (FileSearchTool ''.'') \<mapsto> FileSearchTool ''.''))
        (GetName FileReadTool \<mapsto> FileReadTool))
        (GetName FileEditTool \<mapsto> FileEditTool)"

text \<open>The system message of \<^verbatim>\<open>NewAgent\<close>; \<open>ks\<close> is the order of its \<^verbatim>\<open>range\<close>.\<close>

definition systemMessage :: "(string \<rightharpoonup> Tool) \<Rightarrow> string list \<Rightarrow> string" where
  "systemMessage reg ks =
     ''You are a helpful AI assistant powered by Claude. You have access to these tools:''
     @ [NL, NL]
     @ concat (map (\<lambda>k. case reg k of
                            None \<Rightarrow> []
                          | Some tool \<Rightarrow> ''- '' @ GetName tool @ '': '' @ GetDescription tool @ [NL]) ks)
     @ [NL] @ ''To use a tool, simply mention its name and what you want to do with it. For example: 'I need to use the web_search tool to find information about...' or 'I'll use file_search to look for...'.''
     @ [NL, NL] @ ''To use the file_edit tool, include a JSON object with the following structure:''
     @ [NL] @ ''```json''
     @ [NL] @ ''{''
     @ [NL] @ ''  \"file_path\": \"path/to/file.txt\", // Required: Path to the file to edit''
     @ [NL] @ ''  \"operation\": \"replace\", // Required: Either 'replace' or 'append'' @ [CHR 0x27]
     @ [NL] @ ''  \"content\": \"new content\", // Required: The content to write''
     @ [NL] @ ''  \"start_line\": 1, // Optional: Line number to start replacing (only for replace)''
     @ [NL] @ ''  \"end_line\": 5 // Optional: Line number to end replacing (only for replace)''
     @ [NL] @ ''}''
     @ [NL] @ ''```''
     @ [NL] @ ''For example: 'I'll use the file_edit tool to update the README.md file: {\"file_path\": \"README.md\", \"operation\": \"replace\", \"content\": \"# Updated README\"}'.''"

text \<open>
  \<^verbatim>\<open>NewAgent\<close>: a missing context file is not an error, any other failure of
  \<^verbatim>\<open>loadContext\<close> is.
\<close>

definition NewAgent :: "golib \<Rightarrow> string list \<Rightarrow> string \<Rightarrow> world \<Rightarrow> error + Agent" where
  "NewAgent lib ks file w =
     (let ag = \<lparr>ctx = [\<lparr>role = ''system'', content = systemMessage NewAgent_toolRegistry ks\<rparr>],
                contextFile = file,
                llmClient = NewClient lib,
                toolRegistry = NewAgent_toolRegistry\<rparr>
      in case loadContext ag w of
           (Some err, ag') \<Rightarrow> if \<not> IsNotExist err then Inl err else Inr ag'
         | (None, ag') \<Rightarrow> Inr ag')"

text \<open>The messages \<^verbatim>\<open>Process\<close> appends.\<close>

definition user_message :: "string \<Rightarrow> Message" where
  "user_message input = \<lparr>role = ''user'', content = input\<rparr>"

definition assistant_message :: "string \<Rightarrow> Message" where
  "assistant_message reply = \<lparr>role = ''assistant'', content = reply\<rparr>"

definition tool_message :: "string \<Rightarrow> string \<Rightarrow> Message" where
  "tool_message toolName toolResponse =
     \<lparr>role = ''tool'',
      content = ''Tool '' @ [CHR 0x27] @ toolName @ [CHR 0x27] @ '' returned: '' @ toolResponse\<rparr>"

section \<open>The file-edit rules in the words of the specification\<close>

text \<open>The content of the regular file at a path, if there is one.\<close>

definition file_content :: "filesys \<Rightarrow> string \<Rightarrow> string option" where
  "file_content fs path =
     (case nodes fs path of Some (RegularFile c m) \<Rightarrow> Some c | _ \<Rightarrow> None)"

text \<open>Lines \<open>a\<close> to \<open>b\<close> of a list of lines, counted from 1, both ends included.\<close>

definition line_range :: "string list \<Rightarrow> int \<Rightarrow> int \<Rightarrow> string list" where
  "line_range lines a b = map (\<lambda>i. lines ! nat (i - 1)) [a..b]"

text \<open>
  The replace rule as the specification words it: the whole content for the range (0, 0),
  else lines 1 to \<open>start_line - 1\<close>, the lines of the new content, and lines
  \<open>end_line + 1\<close> to the last one, joined by newlines.
\<close>

definition spec_replace :: "string \<Rightarrow> string \<Rightarrow> int \<Rightarrow> int \<Rightarrow> string" where
  "spec_replace cur new start_line end_line =
     (if start_line = 0 \<and> end_line = 0 then new
      else Join (line_range (Split cur NL) 1 (start_line - 1)
                 @ Split new NL
                 @ line_range (Split cur NL) (end_line + 1) (int (length (Split cur NL)))) NL)"

section \<open>Concrete inputs\<close>

text \<open>A file system with one regular file, \<^verbatim>\<open>notes.txt\<close>, of mode 0644, and no faults.\<close>

definition one_file :: "string \<Rightarrow> filesys" where
  "one_file cur =
     \<lparr>nodes = [''notes.txt'' \<mapsto> RegularFile cur 420],
      stat_error = Map.empty, read_error = Map.empty, write_error = Map.empty\<rparr>"

definition no_file :: filesys where
  "no_file =
     \<lparr>nodes = Map.empty, stat_error = Map.empty, read_error = Map.empty, write_error = Map.empty\<rparr>"

definition edit_request :: "string \<Rightarrow> string \<Rightarrow> int \<Rightarrow> int \<Rightarrow> FileEditRequest" where
  "edit_request operation new start_line end_line =
     \<lparr>FilePath = ''notes.txt'', Operation = operation, Content = new,
      StartLine = start_line, EndLine = end_line\<rparr>"

text \<open>A parser that yields the given request.\<close>

definition parsed :: "FileEditRequest \<Rightarrow> string \<Rightarrow> string + FileEditRequest" where
  "parsed request input = Inr request"

definition ABC :: string where
  "ABC = ''A'' @ [NL] @ ''B'' @ [NL] @ ''C''"

text \<open>
  A library for a machine without network and without API key: no environment variable
  is set, ASCII only, blanks are the only white space.
\<close>

definition trim_blanks :: "string \<Rightarrow> string" where
  "trim_blanks s = rev (dropWhile (\<lambda>c. c = CHR '' '') (rev (dropWhile (\<lambda>c. c = CHR '' '') s)))"

definition offline :: golib where
  "offline =
     \<lparr>unicode_lower = (\<lambda>s. s),
      TrimSpace = trim_blanks,
      Unmarshal_request = (\<lambda>data. Inl ''unexpected end of JSON input''),
      Walk = (\<lambda>fs root. Inl ErrNotExist),
      Getenv = (\<lambda>name. []),
      transport = (\<lambda>n c p. DoFails ''no network''),
      short_escapes = True\<rparr>"

definition tool_names :: "string list" where
  "tool_names = [''web_search'', ''file_search'', ''file_read'', ''file_edit'']"

definition fresh_agent :: Agent where
  "fresh_agent =
     \<lparr>ctx = [\<lparr>role = ''system'', content = systemMessage NewAgent_toolRegistry tool_names\<rparr>],
      contextFile = ''conversation.json'',
      llmClient = NewClient offline,
      toolRegistry = NewAgent_toolRegistry\<rparr>"

definition fresh_world :: world where
  "fresh_world = \<lparr>disk = no_file, queried = []\<rparr>"

text \<open>A transcript with two system messages, and the same without the first of them.\<close>

definition two_systems :: "Message list" where
  "two_systems =
     [\<lparr>role = ''system'', content = ''Be brief.''\<rparr>,
      \<lparr>role = ''user'', content = ''hi''\<rparr>,
      \<lparr>role = ''system'', content = ''Be kind.''\<rparr>,
      \<lparr>role = ''tool'', content = ''done''\<rparr>,
      \<lparr>role = ''assistant'', content = ''ok''\<rparr>]"

definition with_key :: Client where
  "with_key = \<lparr>apiKey = ''sk-test'', endpoint = ''https://api.anthropic.com/v1/messages''\<rparr>"

definition answers :: "string \<Rightarrow> Client \<Rightarrow> payload \<Rightarrow> http_outcome" where
  "answers text c p = StatusOK (Inr [(''text'', text)])"

text \<open>
  Two agents to save: one whose transcript has a newline, \<^verbatim>\<open><\<close>, a quote and an accented
  letter (in UTF-8), one whose transcript has the byte \<^verbatim>\<open>0xFF\<close>, as the content of a
  file in Latin-1 that the file-read tool returned would.
\<close>

definition saved_agent :: Agent where
  "saved_agent =
     fresh_agent\<lparr>ctx :=
       [\<lparr>role = ''system'', content = ''Be kind.''\<rparr>,
        \<lparr>role = ''user'', content = ''caf'' @ [CHR 0xC3, CHR 0xA9, NL] @ ''a < \"b\"''\<rparr>]\<rparr>"

definition latin1_agent :: Agent where
  "latin1_agent = fresh_agent\<lparr>ctx := [\<lparr>role = ''tool'', content = [CHR 0xFF]\<rparr>]\<rparr>"

section \<open>Properties\<close>

subsection \<open>Library functions\<close>

lemma Split_not_Nil: "Split s sep \<noteq> []"
  by (induction s) (auto split: list.splits)

lemma line_range_take:
  assumes "0 \<le> k" "k \<le> int (length xs)"
  shows "line_range xs 1 k = take (nat k) xs"
proof (rule nth_equalityI)
  show "length (line_range xs 1 k) = length (take (nat k) xs)"
    using assms by (simp add: line_range_def)
next
  fix i assume "i < length (line_range xs 1 k)"
  then have i: "i < nat k" using assms by (simp add: line_range_def)
  then show "line_range xs 1 k ! i = take (nat k) xs ! i"
    using assms by (simp add: line_range_def)
qed

lemma line_range_drop:
  assumes "0 \<le> k" "k \<le> int (length xs)"
  shows "line_range xs (k + 1) (int (length xs)) = drop (nat k) xs"
proof (rule nth_equalityI)
  show "length (line_range xs (k + 1) (int (length xs))) = length (drop (nat k) xs)"
    using assms by (simp add: line_range_def)
next
  fix i assume "i < length (line_range xs (k + 1) (int (length xs)))"
  then have i: "i < length xs - nat k" using assms by (simp add: line_range_def)
  with assms have "k + 1 + int i \<le> int (length xs)" by linarith
  then have "[k + 1..int (length xs)] ! i = k + 1 + int i" by (rule nth_upto)
  moreover have "nat (k + 1 + int i - 1) = nat k + i" using assms by linarith
  ultimately show "line_range xs (k + 1) (int (length xs)) ! i = drop (nat k) xs ! i"
    using assms i by (simp add: line_range_def)
qed

subsection \<open>The file-edit tool\<close>

text \<open>
  On an existing regular file that can be examined and read, \<^verbatim>\<open>Execute\<close> comes to
  \<open>newContent\<close> followed by the write.
\<close>

lemma Execute_FileEdit_existing:
  assumes "unmarshal input = Inr request"
    and "FilePath request \<noteq> []" and "Operation request \<noteq> []"
    and "nodes fs (FilePath request) = Some (RegularFile cur mode)"
    and "stat_error fs (FilePath request) = None"
    and "read_error fs (FilePath request) = None"
  shows "Execute_FileEdit unmarshal input fs =
     (case newContent request cur of
        Inl e \<Rightarrow> (Inl e, fs)
      | Inr new \<Rightarrow>
          (case write_error fs (FilePath request) of
             Some e \<Rightarrow> (Inl (FailedToWrite (ErrOther e)), fs)
           | None \<Rightarrow>
               (Inr (''Successfully edited '' @ FilePath request @ '' (''
                     @ Itoa (length new) @ '' bytes written)''),
                fs\<lparr>nodes := (nodes fs)(FilePath request \<mapsto> RegularFile new mode)\<rparr>)))"
  using assms
  by (simp add: Execute_FileEdit_def Stat_def ReadFile_def WriteFile_def
      split: sum.splits option.splits)

lemma HasSuffix_NL: "HasSuffix s [NL] = (s \<noteq> [] \<and> last s = NL)"
proof (cases s rule: rev_cases)
  case Nil
  then show ?thesis by (simp add: HasSuffix_def)
next
  case (snoc ys y)
  then show ?thesis by (auto simp add: HasSuffix_def)
qed

text \<open>
  C5. An append request on an existing regular file (which the operating system lets the
  tool examine, read and write): if the current content ends with a newline, the new
  content is the current content followed by the request's content; otherwise it is the
  current content, one newline, then the request's content.
\<close>

theorem append_starts_on_own_line:
  assumes "unmarshal input = Inr request"
    and "FilePath request \<noteq> []" and "Operation request = ''append''"
    and "nodes fs (FilePath request) = Some (RegularFile cur mode)"
    and "stat_error fs (FilePath request) = None"
    and "read_error fs (FilePath request) = None"
    and "write_error fs (FilePath request) = None"
  shows "\<exists>msg fs'. Execute_FileEdit unmarshal input fs = (Inr msg, fs')
           \<and> file_content fs' (FilePath request) =
               Some (if cur \<noteq> [] \<and> last cur = NL then cur @ Content request
                     else cur @ [NL] @ Content request)"
proof -
  have "newContent request cur =
          Inr (if cur \<noteq> [] \<and> last cur = NL then cur @ Content request
               else cur @ [NL] @ Content request)"
    using assms(3) by (simp add: newContent_def HasSuffix_NL)
  moreover have "Operation request \<noteq> []" using assms(3) by auto
  ultimately show ?thesis
    using Execute_FileEdit_existing [of unmarshal input request fs cur mode] assms
    by (simp add: file_content_def)
qed

text \<open>Append of \<^verbatim>\<open>B\<close> to \<^verbatim>\<open>A\<close> and to \<^verbatim>\<open>A\n\<close>: both give \<^verbatim>\<open>A\nB\<close>.\<close>

theorem append_starts_on_own_line_witness:
  "(\<exists>msg fs'. Execute_FileEdit (parsed (edit_request ''append'' ''B'' 0 0)) [] (one_file ''A'')
                = (Inr msg, fs')
        \<and> file_content fs' ''notes.txt'' = Some (''A'' @ [NL] @ ''B''))
   \<and> (\<exists>msg fs'. Execute_FileEdit (parsed (edit_request ''append'' ''B'' 0 0)) [] (one_file (''A'' @ [NL]))
                = (Inr msg, fs')
        \<and> file_content fs' ''notes.txt'' = Some (''A'' @ [NL] @ ''B''))"
proof -
  have "\<exists>msg fs'. Execute_FileEdit (parsed (edit_request ''append'' ''B'' 0 0)) [] (one_file cur)
                = (Inr msg, fs')
          \<and> file_content fs' (FilePath (edit_request ''append'' ''B'' 0 0)) =
              Some (if cur \<noteq> [] \<and> last cur = NL then cur @ Content (edit_request ''append'' ''B'' 0 0)
                    else cur @ [NL] @ Content (edit_request ''append'' ''B'' 0 0))" for cur
    by (rule append_starts_on_own_line [where mode = 420])
      (simp_all add: parsed_def edit_request_def one_file_def)
  from this [of "''A''"] this [of "''A'' @ [NL]"] show ?thesis
    by (simp add: edit_request_def NL_def)
qed

text \<open>
  C1, as the code has it. A replace request on an existing regular file (which the
  operating system lets the tool examine, read and write): if \<open>start_line\<close> and
  \<open>end_line\<close> are both 0, the new content is the request's content. Otherwise, if
  \<open>start_line\<close> is between 1 and the number of lines of the current content, the new
  content is the join of lines 1 to \<open>start_line - 1\<close>, the lines of the request's content,
  and the lines after \<open>end_line\<close>, where an \<open>end_line\<close> below \<open>start_line\<close> or
  above the number of lines counts as the number of lines.
\<close>

theorem replace_splices_lines:
  assumes "unmarshal input = Inr request"
    and "FilePath request \<noteq> []" and "Operation request = ''replace''"
    and "nodes fs (FilePath request) = Some (RegularFile cur mode)"
    and "stat_error fs (FilePath request) = None"
    and "read_error fs (FilePath request) = None"
    and "write_error fs (FilePath request) = None"
  shows "(StartLine request = 0 \<and> EndLine request = 0 \<longrightarrow>
            (\<exists>msg fs'. Execute_FileEdit unmarshal input fs = (Inr msg, fs')
               \<and> file_content fs' (FilePath request) = Some (Content request)))
       \<and> (\<not> (StartLine request = 0 \<and> EndLine request = 0)
            \<and> 1 \<le> StartLine request \<and> StartLine request \<le> int (length (Split cur NL)) \<longrightarrow>
            (\<exists>msg fs'. Execute_FileEdit unmarshal input fs = (Inr msg, fs')
               \<and> file_content fs' (FilePath request) =
                   Some (spec_replace cur (Content request) (StartLine request)
                           (if EndLine request < StartLine request
                               \<or> EndLine request > int (length (Split cur NL))
                            then int (length (Split cur NL)) else EndLine request))))"
proof -
  let ?n = "int (length (Split cur NL))"
  let ?e = "if EndLine request < StartLine request \<or> EndLine request > ?n
            then ?n else EndLine request"
  have op: "Operation request \<noteq> []" using assms(3) by auto
  note ex = Execute_FileEdit_existing [of unmarshal input request fs cur mode]
  have whole: "newContent request cur = Inr (Content request)"
    if "StartLine request = 0 \<and> EndLine request = 0"
    using that assms(3) by (simp add: newContent_def)
  have part: "newContent request cur =
                Inr (spec_replace cur (Content request) (StartLine request) ?e)"
    if ne: "\<not> (StartLine request = 0 \<and> EndLine request = 0)"
      and lo: "1 \<le> StartLine request" and hi: "StartLine request \<le> ?n"
  proof -
    have e: "0 \<le> ?e" "?e \<le> ?n" using lo hi by auto
    have s: "0 \<le> StartLine request - 1" "StartLine request - 1 \<le> ?n" using lo hi by auto
    have "spec_replace cur (Content request) (StartLine request) ?e =
            Join (take (nat (StartLine request - 1)) (Split cur NL)
                  @ Split (Content request) NL @ drop (nat ?e) (Split cur NL)) NL"
      unfolding spec_replace_def line_range_take [OF s] line_range_drop [OF e]
      using lo by simp
    then show ?thesis
      using ne lo hi assms(3) by (simp add: newContent_def Let_def)
  qed
  show ?thesis
    using ex assms op whole part by (simp add: file_content_def)
qed

text \<open>Replace of line 2 of \<^verbatim>\<open>A\nB\nC\<close> by \<^verbatim>\<open>X\nY\<close> gives \<^verbatim>\<open>A\nX\nY\nC\<close>.\<close>

theorem replace_splices_lines_witness:
  "\<exists>msg fs'. Execute_FileEdit (parsed (edit_request ''replace'' (''X'' @ [NL] @ ''Y'') 2 2)) [] (one_file ABC)
                = (Inr msg, fs')
        \<and> file_content fs' ''notes.txt'' = Some (''A'' @ [NL] @ ''X'' @ [NL] @ ''Y'' @ [NL] @ ''C'')"
proof -
  have sp: "Split ABC NL = [''A'', ''B'', ''C'']"
    by (simp add: ABC_def NL_def)
  have "spec_replace ABC (''X'' @ [NL] @ ''Y'') 2 2 = ''A'' @ [NL] @ ''X'' @ [NL] @ ''Y'' @ [NL] @ ''C''"
    unfolding spec_replace_def sp line_range_def by (simp add: upto.simps)
  then show ?thesis
    using replace_splices_lines [where unmarshal = "parsed (edit_request ''replace'' (''X'' @ [NL] @ ''Y'') 2 2)"
        and input = "[]" and request = "edit_request ''replace'' (''X'' @ [NL] @ ''Y'') 2 2"
        and fs = "one_file ABC" and cur = ABC and mode = 420]
    by (simp add: parsed_def edit_request_def one_file_def sp)
qed

text \<open>
  C1 as stated fails where \<open>end_line\<close> is below \<open>start_line\<close>: replacing with
  \<open>start_line = 2\<close>, \<open>end_line = 1\<close> in \<^verbatim>\<open>A\nB\nC\<close> by \<^verbatim>\<open>X\<close> gives
  \<^verbatim>\<open>A\nX\<close>, and not the \<^verbatim>\<open>A\nX\nB\nC\<close> of the rule as worded.
\<close>

theorem replace_end_before_start_counterexample:
  "file_content (snd (Execute_FileEdit (parsed (edit_request ''replace'' ''X'' 2 1)) [] (one_file ABC)))
      ''notes.txt'' = Some (''A'' @ [NL] @ ''X'')
   \<and> spec_replace ABC ''X'' 2 1 = ''A'' @ [NL] @ ''X'' @ [NL] @ ''B'' @ [NL] @ ''C''
   \<and> file_content (snd (Execute_FileEdit (parsed (edit_request ''replace'' ''X'' 2 1)) [] (one_file ABC)))
      ''notes.txt'' \<noteq> Some (spec_replace ABC ''X'' 2 1)"
proof -
  have sp: "Split ABC NL = [''A'', ''B'', ''C'']"
    by (simp add: ABC_def NL_def)
  have a: "spec_replace ABC ''X'' 2 1 = ''A'' @ [NL] @ ''X'' @ [NL] @ ''B'' @ [NL] @ ''C''"
    unfolding spec_replace_def sp line_range_def by (simp add: upto.simps)
  have b: "newContent (edit_request ''replace'' ''X'' 2 1) ABC = Inr (''A'' @ [NL] @ ''X'')"
    unfolding newContent_def Let_def sp by (simp add: edit_request_def)
  have c: "file_content (snd (Execute_FileEdit (parsed (edit_request ''replace'' ''X'' 2 1)) [] (one_file ABC)))
      ''notes.txt'' = Some (''A'' @ [NL] @ ''X'')"
    using Execute_FileEdit_existing [where unmarshal = "parsed (edit_request ''replace'' ''X'' 2 1)"
        and input = "[]" and request = "edit_request ''replace'' ''X'' 2 1"
        and fs = "one_file ABC" and cur = ABC and mode = 420] b
    by (simp add: parsed_def edit_request_def one_file_def file_content_def)
  show ?thesis unfolding c a by simp
qed

text \<open>
  C2. A replace request whose range is not (0, 0), on an existing regular file that can be
  examined and read, with \<open>n\<close> the number of lines of the current content: if
  \<open>start_line\<close> is below 1 or above \<open>n\<close>, \<^verbatim>\<open>Execute\<close> fails with the range error
  that names \<open>n\<close> and the file system is unchanged; otherwise, if \<open>end_line\<close> is below
  \<open>start_line\<close> or above \<open>n\<close>, the call does what it does for \<open>end_line = n\<close>, and
  succeeds unless the write fails.
\<close>

theorem replace_range_check:
  assumes "unmarshal input = Inr request"
    and "FilePath request \<noteq> []" and "Operation request = ''replace''"
    and "nodes fs (FilePath request) = Some (RegularFile cur mode)"
    and "stat_error fs (FilePath request) = None"
    and "read_error fs (FilePath request) = None"
    and "\<not> (StartLine request = 0 \<and> EndLine request = 0)"
  shows "(StartLine request < 1 \<or> StartLine request > int (length (Split cur NL)) \<longrightarrow>
            Execute_FileEdit unmarshal input fs
              = (Inl (StartLineOutOfRange (length (Split cur NL))), fs))
       \<and> (1 \<le> StartLine request \<and> StartLine request \<le> int (length (Split cur NL))
            \<and> (EndLine request < StartLine request \<or> EndLine request > int (length (Split cur NL))) \<longrightarrow>
            Execute_FileEdit unmarshal input fs
              = Execute_FileEdit (parsed (request\<lparr>EndLine := int (length (Split cur NL))\<rparr>)) input fs
            \<and> (write_error fs (FilePath request) = None \<longrightarrow>
                 (\<exists>msg fs'. Execute_FileEdit unmarshal input fs = (Inr msg, fs'))))"
proof -
  let ?n = "int (length (Split cur NL))"
  let ?request' = "request\<lparr>EndLine := ?n\<rparr>"
  have op: "Operation request \<noteq> []" using assms(3) by auto
  note ex = Execute_FileEdit_existing [of unmarshal input request fs cur mode]
  note ex' = Execute_FileEdit_existing [of "parsed ?request'" input ?request' fs cur mode]
  have out: "newContent request cur = Inl (StartLineOutOfRange (length (Split cur NL)))"
    if "StartLine request < 1 \<or> StartLine request > ?n"
    using that assms(3,7) by (auto simp add: newContent_def Let_def)
  have clamp: "newContent request cur = newContent ?request' cur"
    and ok: "\<exists>new. newContent request cur = Inr new"
    if "1 \<le> StartLine request" "StartLine request \<le> ?n"
      "EndLine request < StartLine request \<or> EndLine request > ?n"
    using that assms(3,7) by (auto simp add: newContent_def Let_def)
  show ?thesis
  proof (intro conjI impI)
    assume "StartLine request < 1 \<or> StartLine request > ?n"
    then show "Execute_FileEdit unmarshal input fs = (Inl (StartLineOutOfRange (length (Split cur NL))), fs)"
      using ex assms op out by simp
  next
    assume h: "1 \<le> StartLine request \<and> StartLine request \<le> ?n
            \<and> (EndLine request < StartLine request \<or> EndLine request > ?n)"
    have "Execute_FileEdit (parsed ?request') input fs =
           (case newContent ?request' cur of
              Inl e \<Rightarrow> (Inl e, fs)
            | Inr new \<Rightarrow>
               (case write_error fs (FilePath request) of
                 Some e \<Rightarrow> (Inl (FailedToWrite (ErrOther e)), fs)
               | None \<Rightarrow>
                 (Inr (''Successfully edited '' @ FilePath request @ '' (''
                     @ Itoa (length new) @ '' bytes written)''),
                  fs\<lparr>nodes := (nodes fs)(FilePath request \<mapsto> RegularFile new mode)\<rparr>)))"
      using ex' assms op by (simp add: parsed_def cong: sum.case_cong option.case_cong)
    then show "Execute_FileEdit unmarshal input fs = Execute_FileEdit (parsed ?request') input fs"
      using ex assms op clamp h by simp
  next
    assume h: "1 \<le> StartLine request \<and> StartLine request \<le> ?n
            \<and> (EndLine request < StartLine request \<or> EndLine request > ?n)"
      and w: "write_error fs (FilePath request) = None"
    from h ok obtain new where "newContent request cur = Inr new" by blast
    then show "\<exists>msg fs'. Execute_FileEdit unmarshal input fs = (Inr msg, fs')"
      using ex assms op w by simp
  qed
qed

text \<open>
  \<open>start_line = 5\<close> on the three lines of \<^verbatim>\<open>A\nB\nC\<close>: the error names the range
  1-3. \<open>end_line = 7\<close> there is \<open>end_line = 3\<close>.
\<close>

theorem replace_range_check_witness:
  "Execute_FileEdit (parsed (edit_request ''replace'' ''X'' 5 0)) [] (one_file ABC)
     = (Inl (StartLineOutOfRange 3), one_file ABC)
   \<and> start_line_message 3 = ''start_line out of range: valid range is 1-3''
   \<and> Execute_FileEdit (parsed (edit_request ''replace'' ''X'' 2 7)) [] (one_file ABC)
     = Execute_FileEdit (parsed (edit_request ''replace'' ''X'' 2 3)) [] (one_file ABC)
   \<and> (\<exists>msg fs'. Execute_FileEdit (parsed (edit_request ''replace'' ''X'' 2 7)) [] (one_file ABC)
        = (Inr msg, fs'))"
proof -
  have sp: "Split ABC NL = [''A'', ''B'', ''C'']"
    by (simp add: ABC_def NL_def)
  have m: "start_line_message 3 = ''start_line out of range: valid range is 1-3''"
    by (simp add: start_line_message_def Itoa.simps [of 3] digit_def)
  have a: "Execute_FileEdit (parsed (edit_request ''replace'' ''X'' 5 0)) [] (one_file ABC)
     = (Inl (StartLineOutOfRange 3), one_file ABC)"
    using replace_range_check [where unmarshal = "parsed (edit_request ''replace'' ''X'' 5 0)"
        and input = "[]" and request = "edit_request ''replace'' ''X'' 5 0"
        and fs = "one_file ABC" and cur = ABC and mode = 420]
    by (simp add: parsed_def edit_request_def one_file_def sp)
  have r: "(edit_request ''replace'' ''X'' 2 7)\<lparr>EndLine := int (length (Split ABC NL))\<rparr>
             = edit_request ''replace'' ''X'' 2 3"
    by (simp add: edit_request_def sp)
  have h: "parsed (edit_request ''replace'' ''X'' 2 7) [] = Inr (edit_request ''replace'' ''X'' 2 7)"
    "FilePath (edit_request ''replace'' ''X'' 2 7) \<noteq> []"
    "Operation (edit_request ''replace'' ''X'' 2 7) = ''replace''"
    "nodes (one_file ABC) (FilePath (edit_request ''replace'' ''X'' 2 7)) = Some (RegularFile ABC 420)"
    "stat_error (one_file ABC) (FilePath (edit_request ''replace'' ''X'' 2 7)) = None"
    "read_error (one_file ABC) (FilePath (edit_request ''replace'' ''X'' 2 7)) = None"
    "\<not> (StartLine (edit_request ''replace'' ''X'' 2 7) = 0 \<and> EndLine (edit_request ''replace'' ''X'' 2 7) = 0)"
    by (simp_all add: parsed_def edit_request_def one_file_def)
  have g: "1 \<le> StartLine (edit_request ''replace'' ''X'' 2 7)
        \<and> StartLine (edit_request ''replace'' ''X'' 2 7) \<le> int (length (Split ABC NL))
        \<and> (EndLine (edit_request ''replace'' ''X'' 2 7) < StartLine (edit_request ''replace'' ''X'' 2 7)
           \<or> EndLine (edit_request ''replace'' ''X'' 2 7) > int (length (Split ABC NL)))"
    and w: "write_error (one_file ABC) (FilePath (edit_request ''replace'' ''X'' 2 7)) = None"
    by (simp_all add: edit_request_def one_file_def sp)
  note t = replace_range_check [where unmarshal = "parsed (edit_request ''replace'' ''X'' 2 7)"
        and input = "[]" and request = "edit_request ''replace'' ''X'' 2 7"
        and fs = "one_file ABC" and cur = ABC and mode = 420, OF h, THEN conjunct2, THEN mp, OF g]
  have b: "Execute_FileEdit (parsed (edit_request ''replace'' ''X'' 2 7)) [] (one_file ABC)
     = Execute_FileEdit (parsed (edit_request ''replace'' ''X'' 2 3)) [] (one_file ABC)
   \<and> (\<exists>msg fs'. Execute_FileEdit (parsed (edit_request ''replace'' ''X'' 2 7)) [] (one_file ABC)
        = (Inr msg, fs'))"
    using t [THEN conjunct1] t [THEN conjunct2, THEN mp, OF w] unfolding r by (rule conjI)
  from a m b show ?thesis by blast
qed

text \<open>
  C3. A request with non-empty \<open>file_path\<close> and \<open>operation\<close> on a path that does not
  exist: if the content is not empty (and the operating system lets the tool write), the
  file is created with exactly that content, whatever the operation, and the reply gives
  the number of bytes; if the content is empty, the call fails with the file-not-found
  error and the file system is unchanged.
\<close>

theorem create_when_missing:
  assumes "unmarshal input = Inr request"
    and "FilePath request \<noteq> []" and "Operation request \<noteq> []"
    and "Stat fs (FilePath request) = NotExist"
  shows "(Content request \<noteq> [] \<and> write_error fs (FilePath request) = None \<longrightarrow>
            (\<exists>fs'. Execute_FileEdit unmarshal input fs
                     = (Inr (''Created new file '' @ FilePath request @ '' with ''
                             @ Itoa (length (Content request)) @ '' bytes''), fs')
                \<and> file_content fs' (FilePath request) = Some (Content request)))
       \<and> (Content request = [] \<longrightarrow>
            Execute_FileEdit unmarshal input fs = (Inl (FileNotFound (FilePath request)), fs))"
proof -
  have "nodes fs (FilePath request) = None"
    using assms(4) by (simp add: Stat_def split: option.splits node.splits)
  then show ?thesis
    using assms
    by (simp add: Execute_FileEdit_def WriteFile_def file_content_def)
qed

text \<open>An operation that is neither replace nor append still creates the file.\<close>

theorem create_when_missing_witness:
  "(\<exists>fs'. Execute_FileEdit (parsed (edit_request ''rename'' ''hello'' 0 0)) [] no_file
             = (Inr ''Created new file notes.txt with 5 bytes'', fs')
        \<and> file_content fs' ''notes.txt'' = Some ''hello'')
   \<and> Execute_FileEdit (parsed (edit_request ''replace'' [] 0 0)) [] no_file
       = (Inl (FileNotFound ''notes.txt''), no_file)"
proof -
  have i: "Itoa (Suc (Suc (Suc (Suc (Suc 0))))) = ''5''"
    by (simp add: Itoa.simps [of "Suc (Suc (Suc (Suc (Suc 0))))"] digit_def)
  have a: "\<exists>fs'. Execute_FileEdit (parsed (edit_request ''rename'' ''hello'' 0 0)) [] no_file
             = (Inr ''Created new file notes.txt with 5 bytes'', fs')
        \<and> file_content fs' ''notes.txt'' = Some ''hello''"
    using create_when_missing [where unmarshal = "parsed (edit_request ''rename'' ''hello'' 0 0)"
        and input = "[]" and request = "edit_request ''rename'' ''hello'' 0 0" and fs = no_file]
    by (simp add: parsed_def edit_request_def no_file_def Stat_def i)
  have b: "Execute_FileEdit (parsed (edit_request ''replace'' [] 0 0)) [] no_file
       = (Inl (FileNotFound ''notes.txt''), no_file)"
    using create_when_missing [where unmarshal = "parsed (edit_request ''replace'' [] 0 0)"
        and input = "[]" and request = "edit_request ''replace'' [] 0 0" and fs = no_file]
    by (simp add: parsed_def edit_request_def no_file_def Stat_def)
  from a b show ?thesis by simp
qed

subsection \<open>Substrings\<close>

text \<open>\<open>Contains\<close> holds exactly when the second string occurs in the first.\<close>

lemma HasPrefix_iff: "HasPrefix s pre \<longleftrightarrow> (\<exists>q. s = pre @ q)"
  unfolding HasPrefix_def
  by (metis append_eq_conv_conj append_take_drop_id)

lemma Index_ge: "-1 \<le> Index s sub"
  by (induction s) (auto simp: Let_def)

lemma Contains_iff: "Contains s sub \<longleftrightarrow> (\<exists>p q. s = p @ sub @ q)"
proof (induction s)
  case Nil
  show ?case by (simp add: Contains_def)
next
  case (Cons c cs)
  have "Contains (c # cs) sub \<longleftrightarrow> HasPrefix (c # cs) sub \<or> Contains cs sub"
    using Index_ge [of cs sub] by (auto simp: Contains_def Let_def)
  also have "\<dots> \<longleftrightarrow> (\<exists>q. c # cs = sub @ q) \<or> (\<exists>p q. cs = p @ sub @ q)"
    by (simp add: HasPrefix_iff Cons.IH)
  also have "\<dots> \<longleftrightarrow> (\<exists>p q. c # cs = p @ sub @ q)"
  proof
    assume "(\<exists>q. c # cs = sub @ q) \<or> (\<exists>p q. cs = p @ sub @ q)"
    then show "\<exists>p q. c # cs = p @ sub @ q"
    proof
      assume "\<exists>q. c # cs = sub @ q"
      then obtain q where "c # cs = [] @ sub @ q" by auto
      then show ?thesis by blast
    next
      assume "\<exists>p q. cs = p @ sub @ q"
      then obtain p q where "c # cs = (c # p) @ sub @ q" by auto
      then show ?thesis by blast
    qed
  next
    assume "\<exists>p q. c # cs = p @ sub @ q"
    then obtain p q where pq: "c # cs = p @ sub @ q" by blast
    show "(\<exists>q. c # cs = sub @ q) \<or> (\<exists>p q. cs = p @ sub @ q)"
    proof (cases p)
      case Nil
      with pq show ?thesis by auto
    next
      case (Cons x xs)
      with pq have "cs = xs @ sub @ q" by simp
      then show ?thesis by blast
    qed
  qed
  finally show ?case .
qed

subsection \<open>Detecting the tool\<close>

lemma mentions_None:
  "mentions lib input ks = None \<longleftrightarrow> (\<forall>k \<in> set ks. \<not> Contains (ToLower lib input) (ToLower lib k))"
  by (induction ks) auto

lemma mentions_Some:
  "mentions lib input ks = Some k \<Longrightarrow> k \<in> set ks \<and> Contains (ToLower lib input) (ToLower lib k)"
  by (induction ks) (auto split: if_splits)

lemma dom_NewAgent_toolRegistry: "dom NewAgent_toolRegistry = set tool_names"
  by (auto simp add: NewAgent_toolRegistry_def tool_names_def)

lemma ToLower_tool_names: "k \<in> set tool_names \<Longrightarrow> ToLower lib k = k"
  by (auto simp add: tool_names_def ToLower_def isASCII_def lower_byte_def)

text \<open>
  C7. Whatever the order of the iteration over the registry, \<^verbatim>\<open>shouldUseTool\<close> returns
  true exactly when the lowercased reply contains the lowercased name of some registered
  tool, or contains both \<^verbatim>\<open>use the\<close> and \<^verbatim>\<open>tool\<close>.
\<close>

theorem shouldUseTool_iff:
  assumes "iterates reg ks"
  shows "shouldUseTool lib ks reply \<longleftrightarrow>
           (\<exists>name \<in> dom reg. \<exists>p q. ToLower lib reply = p @ ToLower lib name @ q)
           \<or> ((\<exists>p q. ToLower lib reply = p @ ''use the'' @ q)
              \<and> (\<exists>p q. ToLower lib reply = p @ ''tool'' @ q))"
proof (cases "mentions lib reply ks")
  case None
  then have "\<not> (\<exists>name \<in> dom reg. \<exists>p q. ToLower lib reply = p @ ToLower lib name @ q)"
    using assms by (simp add: mentions_None iterates_def Contains_iff)
  moreover have "shouldUseTool lib ks reply \<longleftrightarrow>
      (\<exists>p q. ToLower lib reply = p @ ''use the'' @ q) \<and> (\<exists>p q. ToLower lib reply = p @ ''tool'' @ q)"
    using None by (simp add: shouldUseTool_def Contains_iff)
  ultimately show ?thesis by blast
next
  case (Some k)
  then have "k \<in> dom reg" and "\<exists>p q. ToLower lib reply = p @ ToLower lib k @ q"
    using mentions_Some [OF Some] assms by (simp_all add: iterates_def Contains_iff)
  moreover have "shouldUseTool lib ks reply"
    using Some by (simp add: shouldUseTool_def)
  ultimately show ?thesis by blast
qed

lemma iterates_tool_names: "iterates NewAgent_toolRegistry tool_names"
  by (simp add: iterates_def dom_NewAgent_toolRegistry) (simp add: tool_names_def)


text \<open>A reply that names a tool in capitals, and one that only has the word \<^verbatim>\<open>tool\<close>.\<close>

theorem shouldUseTool_iff_witness:
  "((\<exists>name \<in> dom NewAgent_toolRegistry.
        \<exists>p q. ToLower offline ''I will call File_Read on it'' = p @ ToLower offline name @ q)
     \<or> ((\<exists>p q. ToLower offline ''I will call File_Read on it'' = p @ ''use the'' @ q)
        \<and> (\<exists>p q. ToLower offline ''I will call File_Read on it'' = p @ ''tool'' @ q)))
   \<and> \<not> ((\<exists>name \<in> dom NewAgent_toolRegistry.
        \<exists>p q. ToLower offline ''The tool is not needed'' = p @ ToLower offline name @ q)
     \<or> ((\<exists>p q. ToLower offline ''The tool is not needed'' = p @ ''use the'' @ q)
        \<and> (\<exists>p q. ToLower offline ''The tool is not needed'' = p @ ''tool'' @ q)))"
proof -
  have it: "iterates NewAgent_toolRegistry tool_names"
    by (simp add: iterates_def dom_NewAgent_toolRegistry) (simp add: tool_names_def)
  have yes: "shouldUseTool offline tool_names ''I will call File_Read on it''"
    by code_simp
  have no: "\<not> shouldUseTool offline tool_names ''The tool is not needed''"
    by code_simp
  from yes no show ?thesis
    unfolding shouldUseTool_iff [OF it] by (rule conjI)
qed

text \<open>Only the lookup in \<^verbatim>\<open>executeTool\<close> gives the tool-not-found error.\<close>

lemma Query_not_tool_error:
  "Query http c msgs \<noteq> Inl (ToolNotFound n)" "Query http c msgs \<noteq> Inl (ToolExecutionError e)"
  by (auto simp add: Query_def read_response_def Let_def split: http_outcome.splits sum.splits)

lemma newContent_not_ToolNotFound: "newContent request cur \<noteq> Inl (ToolNotFound n)"
  by (auto simp add: newContent_def Let_def)

lemma Execute_FileEdit_not_ToolNotFound:
  "fst (Execute_FileEdit unmarshal input fs) \<noteq> Inl (ToolNotFound n)"
  using newContent_not_ToolNotFound
  by (auto simp add: Execute_FileEdit_def split: sum.splits stat_result.splits)

lemma Execute_not_ToolNotFound: "fst (Execute lib tool input fs) \<noteq> Inl (ToolNotFound n)"
proof (cases tool)
  case WebSearchTool
  then show ?thesis by (simp add: Execute_WebSearch_def Let_def)
next
  case (FileSearchTool root)
  then show ?thesis by (simp add: Execute_FileSearch_def Let_def split: sum.splits)
next
  case FileReadTool
  then show ?thesis by (simp add: Execute_FileRead_def Let_def split: sum.splits)
next
  case FileEditTool
  then show ?thesis by (simp add: Execute_FileEdit_not_ToolNotFound)
qed

lemma extractToolInput_not_ToolNotFound: "extractToolInput lib toolName input \<noteq> Inl (ToolNotFound n)"
  by (simp add: extractToolInput_def Let_def)

lemma executeTool_ToolNotFound:
  "fst (executeTool lib reg toolName input fs) = Inl (ToolNotFound n) \<Longrightarrow> reg toolName = None"
  using Execute_not_ToolNotFound extractToolInput_not_ToolNotFound
  by (auto simp add: executeTool_def split: option.splits sum.splits)

lemma wrap_ToolNotFound:
  "wrap e \<noteq> ToolNotFound n" "wrap e = ToolExecutionError (ToolNotFound n) \<Longrightarrow> e = ToolNotFound n"
  by (cases e; simp)+

lemma Process_ToolNotFound:
  assumes "fst (Process lib ks1 ks2 a input w) = Inl (ToolNotFound n)
           \<or> fst (Process lib ks1 ks2 a input w) = Inl (ToolExecutionError (ToolNotFound n))"
  shows "\<exists>reply. toolRegistry a (detectToolName lib ks2 reply) = None"
proof -
  let ?a1 = "a\<lparr>ctx := ctx a @ [\<lparr>role = ''user'', content = input\<rparr>]\<rparr>"
  obtain r1 w1 where q1: "ask lib (llmClient ?a1) (convertToLLMMessages (ctx ?a1)) w = (r1, w1)"
    by (cases "ask lib (llmClient ?a1) (convertToLLMMessages (ctx ?a1)) w")
  have r1: "r1 \<noteq> Inl (ToolNotFound n)" "r1 \<noteq> Inl (ToolExecutionError (ToolNotFound n))"
    using q1 Query_not_tool_error by (auto simp add: ask_def)
  show ?thesis
  proof (cases r1)
    case (Inl err)
    with assms q1 r1 show ?thesis by (simp add: Process_def Let_def)
  next
    case (Inr llmResponse)
    show ?thesis
    proof (cases "shouldUseTool lib ks1 llmResponse")
      case False
      with assms q1 Inr show ?thesis by (simp add: Process_def Let_def)
    next
      case True
      let ?t = "detectToolName lib ks2 llmResponse"
      obtain r d where ex: "executeTool lib (toolRegistry a) ?t llmResponse (disk w1) = (r, d)"
        by (cases "executeTool lib (toolRegistry a) ?t llmResponse (disk w1)")
      show ?thesis
      proof (cases r)
        case (Inl err)
        with assms q1 Inr True ex have "err = ToolNotFound n"
          using wrap_ToolNotFound by (auto simp add: Process_def Let_def)
        with ex Inl have "toolRegistry a ?t = None"
          using executeTool_ToolNotFound [of lib "toolRegistry a" ?t llmResponse "disk w1" n] by simp
        then show ?thesis by blast
      next
        case (Inr toolResponse)
        let ?a3 = "a\<lparr>ctx := ctx a @ [\<lparr>role = ''user'', content = input\<rparr>,
                      \<lparr>role = ''assistant'', content = llmResponse\<rparr>,
                      \<lparr>role = ''tool'', content = ''Tool '' @ [CHR 0x27] @ ?t @ [CHR 0x27] @ '' returned: '' @ toolResponse\<rparr>]\<rparr>"
        obtain r2 w2 where q2: "ask lib (llmClient ?a3) (convertToLLMMessages (ctx ?a3)) (w1\<lparr>disk := d\<rparr>) = (r2, w2)"
          by (cases "ask lib (llmClient ?a3) (convertToLLMMessages (ctx ?a3)) (w1\<lparr>disk := d\<rparr>)")
        have r2: "r2 \<noteq> Inl (ToolNotFound n)" "r2 \<noteq> Inl (ToolExecutionError (ToolNotFound n))"
          using q2 Query_not_tool_error by (auto simp add: ask_def)
        from assms q1 \<open>r1 = Inr llmResponse\<close> True ex Inr q2 r2 show ?thesis
          by (cases r2) (auto simp add: Process_def Let_def)
      qed
    qed
  qed
qed

lemma mentions_detect:
  "detectToolName lib ks reply = ''web_search''
   \<or> (detectToolName lib ks reply \<in> set ks
      \<and> Contains (ToLower lib reply) (ToLower lib (detectToolName lib ks reply)))"
  using mentions_Some [of lib reply ks]
  by (cases "mentions lib reply ks") (auto simp add: detectToolName_def)

text \<open>
  C9. Whatever the order of the iteration, the name \<^verbatim>\<open>detectToolName\<close> returns is a key
  of the registry \<^verbatim>\<open>NewAgent\<close> builds: it is \<^verbatim>\<open>web_search\<close>, or it occurs in the
  lowercased reply. So \<^verbatim>\<open>executeTool\<close> on that name never gives the tool-not-found
  error, and \<^verbatim>\<open>Process\<close> of an agent with this registry never returns it, wrapped or
  not.
\<close>

theorem detectToolName_registered:
  assumes "iterates NewAgent_toolRegistry ks"
  shows "NewAgent_toolRegistry (detectToolName lib ks reply) \<noteq> None
       \<and> (detectToolName lib ks reply = ''web_search''
          \<or> (\<exists>p q. ToLower lib reply = p @ detectToolName lib ks reply @ q))
       \<and> fst (executeTool lib NewAgent_toolRegistry (detectToolName lib ks reply) input fs)
            \<noteq> Inl (ToolNotFound n)
       \<and> (toolRegistry a = NewAgent_toolRegistry \<longrightarrow>
            fst (Process lib ks1 ks a user_input w) \<noteq> Inl (ToolNotFound n)
            \<and> fst (Process lib ks1 ks a user_input w) \<noteq> Inl (ToolExecutionError (ToolNotFound n)))"
proof -
  have ks: "set ks = set tool_names"
    using assms by (simp add: iterates_def dom_NewAgent_toolRegistry)
  have web: "''web_search'' \<in> set tool_names" by (simp add: tool_names_def)
  have key: "NewAgent_toolRegistry (detectToolName lib ks r) \<noteq> None" for r
    using mentions_detect [of lib ks r] ks web dom_NewAgent_toolRegistry by (auto simp add: dom_def)
  have sub: "detectToolName lib ks reply = ''web_search''
          \<or> (\<exists>p q. ToLower lib reply = p @ detectToolName lib ks reply @ q)"
  proof (cases "detectToolName lib ks reply = ''web_search''")
    case True
    then show ?thesis by simp
  next
    case False
    with mentions_detect [of lib ks reply]
    have k: "detectToolName lib ks reply \<in> set ks"
      and c: "Contains (ToLower lib reply) (ToLower lib (detectToolName lib ks reply))"
      by simp_all
    from k ks have "ToLower lib (detectToolName lib ks reply) = detectToolName lib ks reply"
      by (simp add: ToLower_tool_names)
    with c have "\<exists>p q. ToLower lib reply = p @ detectToolName lib ks reply @ q"
      by (simp add: Contains_iff)
    then show ?thesis by simp
  qed
  have ex: "fst (executeTool lib NewAgent_toolRegistry (detectToolName lib ks reply) input fs)
            \<noteq> Inl (ToolNotFound n)"
    using executeTool_ToolNotFound key by blast
  have pr: "fst (Process lib ks1 ks a user_input w) \<noteq> Inl (ToolNotFound n)
            \<and> fst (Process lib ks1 ks a user_input w) \<noteq> Inl (ToolExecutionError (ToolNotFound n))"
    if "toolRegistry a = NewAgent_toolRegistry"
    using Process_ToolNotFound [of lib ks1 ks a user_input w n] key that by auto
  from key sub ex pr show ?thesis by blast
qed

text \<open>The reply names \<^verbatim>\<open>File_Read\<close>; the registry has \<^verbatim>\<open>file_read\<close>.\<close>

theorem detectToolName_registered_witness:
  "detectToolName offline tool_names ''I will call File_Read on it'' = ''file_read''
   \<and> NewAgent_toolRegistry (detectToolName offline tool_names ''I will call File_Read on it'') \<noteq> None
   \<and> (detectToolName offline tool_names ''I will call File_Read on it'' = ''web_search''
      \<or> (\<exists>p q. ToLower offline ''I will call File_Read on it''
                 = p @ detectToolName offline tool_names ''I will call File_Read on it'' @ q))
   \<and> fst (executeTool offline NewAgent_toolRegistry
             (detectToolName offline tool_names ''I will call File_Read on it'')
             ''I will call File_Read on it'' no_file) \<noteq> Inl (ToolNotFound ''file_read'')
   \<and> fst (Process offline tool_names tool_names fresh_agent ''find File_Read'' fresh_world)
        \<noteq> Inl (ToolNotFound ''file_read'')
   \<and> fst (Process offline tool_names tool_names fresh_agent ''find File_Read'' fresh_world)
        \<noteq> Inl (ToolExecutionError (ToolNotFound ''file_read''))"
proof -
  have it: "iterates NewAgent_toolRegistry tool_names"
    by (simp add: iterates_def dom_NewAgent_toolRegistry) (simp add: tool_names_def)
  have d: "detectToolName offline tool_names ''I will call File_Read on it'' = ''file_read''"
    by code_simp
  have r: "toolRegistry fresh_agent = NewAgent_toolRegistry"
    by (simp add: fresh_agent_def)
  from d r detectToolName_registered [OF it, of offline "''I will call File_Read on it''"
      "''I will call File_Read on it''" no_file "''file_read''" fresh_agent tool_names
      "''find File_Read''" fresh_world]
  show ?thesis by blast
qed

subsection \<open>One turn\<close>

lemma convertToLLMMessages_id: "convertToLLMMessages ms = ms"
  unfolding convertToLLMMessages_def by (induction ms) simp_all

text \<open>
  C4. Let the first query succeed with a reply. If the reply does not trigger the
  detection, \<^verbatim>\<open>Process\<close> returns it after that one query, with two messages appended:
  the user's and the assistant's. If it does, and the tool runs without error and the
  second query succeeds, \<^verbatim>\<open>Process\<close> returns the second reply after exactly these two
  queries, with four messages appended: user, assistant (the first reply), tool (the
  result), assistant (the final reply). The trace \<open>queried\<close> grows by the transcripts of
  the queries made. The statement holds for the empty input too.
\<close>

theorem Process_turn:
  assumes "Query (transport lib (length (queried w))) (llmClient a) (ctx a @ [user_message input])
             = Inr reply"
  shows "(\<not> shouldUseTool lib ks1 reply \<longrightarrow>
            Process lib ks1 ks2 a input w =
              (Inr reply,
               a\<lparr>ctx := ctx a @ [user_message input, assistant_message reply]\<rparr>,
               w\<lparr>queried := queried w @ [ctx a @ [user_message input]]\<rparr>))
       \<and> (shouldUseTool lib ks1 reply
            \<and> executeTool lib (toolRegistry a) (detectToolName lib ks2 reply) reply (disk w)
                = (Inr toolResponse, d)
            \<and> Query (transport lib (Suc (length (queried w)))) (llmClient a)
                 (ctx a @ [user_message input, assistant_message reply,
                           tool_message (detectToolName lib ks2 reply) toolResponse])
                = Inr finalResponse \<longrightarrow>
            Process lib ks1 ks2 a input w =
              (Inr finalResponse,
               a\<lparr>ctx := ctx a @ [user_message input, assistant_message reply,
                                 tool_message (detectToolName lib ks2 reply) toolResponse,
                                 assistant_message finalResponse]\<rparr>,
               w\<lparr>disk := d,
                 queried := queried w
                   @ [ctx a @ [user_message input],
                      ctx a @ [user_message input, assistant_message reply,
                               tool_message (detectToolName lib ks2 reply) toolResponse]]\<rparr>))"
  using assms
  by (simp add: Process_def ask_def Let_def convertToLLMMessages_id
      user_message_def assistant_message_def tool_message_def)

text \<open>Two turns of a fresh agent without API key: one without a tool, one with the web search.\<close>

theorem Process_turn_witness:
  "Process offline tool_names tool_names fresh_agent ''hello'' fresh_world =
     (Inr ''Mock Claude response to: hello'',
      fresh_agent\<lparr>ctx := ctx fresh_agent
         @ [user_message ''hello'', assistant_message ''Mock Claude response to: hello'']\<rparr>,
      fresh_world\<lparr>queried := queried fresh_world @ [ctx fresh_agent @ [user_message ''hello'']]\<rparr>)
   \<and> Process offline tool_names tool_names fresh_agent ''please web_search for cats'' fresh_world =
     (Inr ''Mock Claude response to: Tool 'web_search' returned: Mock search results for 'cats': [Result 1, Result 2, Result 3]'',
      fresh_agent\<lparr>ctx := ctx fresh_agent
         @ [user_message ''please web_search for cats'',
            assistant_message ''Mock Claude response to: please web_search for cats'',
            tool_message ''web_search'' ''Mock search results for 'cats': [Result 1, Result 2, Result 3]'',
            assistant_message ''Mock Claude response to: Tool 'web_search' returned: Mock search results for 'cats': [Result 1, Result 2, Result 3]'']\<rparr>,
      fresh_world\<lparr>disk := no_file,
        queried := queried fresh_world
          @ [ctx fresh_agent @ [user_message ''please web_search for cats''],
             ctx fresh_agent
               @ [user_message ''please web_search for cats'',
                  assistant_message ''Mock Claude response to: please web_search for cats'',
                  tool_message ''web_search'' ''Mock search results for 'cats': [Result 1, Result 2, Result 3]'']]\<rparr>)"
proof -
  have key: "apiKey (llmClient fresh_agent) = []"
    by (simp add: fresh_agent_def NewClient_def offline_def)
  have q: "Query http (llmClient fresh_agent) (ms @ [m]) = Inr (''Mock Claude response to: '' @ content m)"
    for http ms m
    by (simp add: Query_def key)
  have q1: "Query (transport offline (length (queried fresh_world))) (llmClient fresh_agent)
              (ctx fresh_agent @ [user_message ''hello'']) = Inr ''Mock Claude response to: hello''"
    by (simp add: q user_message_def)
  have n1: "\<not> shouldUseTool offline tool_names ''Mock Claude response to: hello''"
    by code_simp
  note one = Process_turn [OF q1, THEN conjunct1, THEN mp, OF n1]
  let ?r = "''Mock Claude response to: please web_search for cats''"
  let ?out = "''Mock search results for 'cats': [Result 1, Result 2, Result 3]''"
  have q2: "Query (transport offline (length (queried fresh_world))) (llmClient fresh_agent)
              (ctx fresh_agent @ [user_message ''please web_search for cats'']) = Inr ?r"
    by (simp add: q user_message_def)
  have y2: "shouldUseTool offline tool_names ?r"
    by code_simp
  have d2: "detectToolName offline tool_names ?r = ''web_search''"
    by code_simp
  have x2: "extractToolInput offline ''web_search'' ?r = Inr ''cats''"
    by code_simp
  have w2: "Execute_WebSearch offline ''cats'' = Inr ?out"
    by code_simp
  have e2: "executeTool offline (toolRegistry fresh_agent) (detectToolName offline tool_names ?r) ?r
              (disk fresh_world) = (Inr ?out, no_file)"
    unfolding d2
    by (simp add: executeTool_def fresh_agent_def fresh_world_def NewAgent_toolRegistry_def x2 w2)
  have f2: "Query (transport offline (Suc (length (queried fresh_world)))) (llmClient fresh_agent)
              (ctx fresh_agent @ [user_message ''please web_search for cats'', assistant_message ?r,
                 tool_message (detectToolName offline tool_names ?r) ?out])
            = Inr ''Mock Claude response to: Tool 'web_search' returned: Mock search results for 'cats': [Result 1, Result 2, Result 3]''"
    unfolding d2
    using q [of _ "ctx fresh_agent @ [user_message ''please web_search for cats'', assistant_message ?r]"
        "tool_message ''web_search'' ?out"]
    by (simp add: tool_message_def)
  note two = Process_turn [OF q2, THEN conjunct2, THEN mp, OF conjI [OF y2 conjI [OF e2 f2]]]
  from one [of tool_names] two show ?thesis
    unfolding d2 by (rule conjI)
qed

subsection \<open>The gateway\<close>

text \<open>Without an API key, a transcript that is not empty gets the placeholder reply.\<close>

lemma Query_without_key:
  "apiKey c = [] \<Longrightarrow> msgs \<noteq> [] \<Longrightarrow>
   Query http c msgs = Inr (''Mock Claude response to: '' @ content (last msgs))"
  by (simp add: Query_def)

text \<open>
  C8 fails on the empty transcript: without an API key, \<^verbatim>\<open>Query\<close> indexes the last
  message of an empty slice and panics.
\<close>

theorem Query_without_key_empty_transcript:
  "Query http \<lparr>apiKey = [], endpoint = e\<rparr> [] = Inl (Panic ''index out of range [-1]'')"
  by (simp add: Query_def)

lemma fst_collect_no_system:
  "\<forall>m \<in> set ms. role m \<noteq> ''system'' \<Longrightarrow> fst (foldl collect st ms) = fst st"
proof (induction ms arbitrary: st)
  case Nil
  show ?case by simp
next
  case (Cons m ms)
  then have "fst (foldl collect (collect st m) ms) = fst (collect st m)" by simp
  moreover have "fst (collect st m) = fst st"
    using Cons.prems by (cases st) (simp add: collect_def)
  ultimately show ?case by simp
qed

lemma snd_collect_filter:
  "snd (foldl collect (sp, am) ms)
     = snd (foldl collect (sp', am) (filter (\<lambda>m. role m \<noteq> ''system'') ms))"
proof (induction ms arbitrary: sp sp' am)
  case Nil
  show ?case by simp
next
  case (Cons m ms)
  show ?case
  proof (cases "role m = ''system''")
    case True
    then show ?thesis using Cons.IH [of "content m" am sp'] by (simp add: collect_def)
  next
    case False
    let ?am = "snd (collect (sp, am) m)"
    have "collect (sp, am) m = (sp, ?am)" "collect (sp', am) m = (sp', ?am)"
      using False by (simp_all add: collect_def)
    then show ?thesis using False Cons.IH [of sp ?am sp'] by simp
  qed
qed

lemma roles_collect:
  "\<forall>m \<in> set (snd st). role m \<noteq> ''system'' \<Longrightarrow>
   \<forall>m \<in> set (snd (foldl collect st ms)). role m \<noteq> ''system''"
proof (induction ms arbitrary: st)
  case Nil
  then show ?case by simp
next
  case (Cons m ms)
  have "\<forall>x \<in> set (snd (collect st m)). role x \<noteq> ''system''"
    using Cons.prems by (cases st) (auto simp add: collect_def)
  from Cons.IH [OF this] show ?case by simp
qed

lemma collect_system:
  "role s = ''system'' \<Longrightarrow> collect st s = (content s, snd st)"
  by (cases st) (simp add: collect_def)

text \<open>
  C10. With an API key, \<^verbatim>\<open>Query\<close> sends the payload built from the transcript. No
  message of the payload has the role \<^verbatim>\<open>system\<close>. The system prompt is the content of
  the last system message (the key is left out when that content is empty), and the
  payload is the one of the transcript without the system messages before the last: their
  content is not sent.
\<close>

theorem system_prompt_is_last_system_message:
  "(apiKey c \<noteq> [] \<longrightarrow> Query http c msgs = read_response (http c (build_payload msgs)))
   \<and> (\<forall>m \<in> set (messages (build_payload msgs)). role m \<noteq> ''system'')
   \<and> (role s = ''system'' \<and> (\<forall>m \<in> set post. role m \<noteq> ''system'') \<longrightarrow>
        system (build_payload (pre @ s # post)) = (if content s = [] then None else Some (content s))
        \<and> build_payload (pre @ s # post)
            = build_payload (filter (\<lambda>m. role m \<noteq> ''system'') pre @ s # post))"
proof (intro conjI impI)
  assume "apiKey c \<noteq> []"
  then show "Query http c msgs = read_response (http c (build_payload msgs))"
    by (simp add: Query_def)
next
  have "\<forall>m \<in> set (snd (foldl collect ([], []) msgs)). role m \<noteq> ''system''"
    by (rule roles_collect) simp
  then show "\<forall>m \<in> set (messages (build_payload msgs)). role m \<noteq> ''system''"
    by (simp add: build_payload_def split: prod.splits)
next
  assume h: "role s = ''system'' \<and> (\<forall>m \<in> set post. role m \<noteq> ''system'')"
  let ?f = "filter (\<lambda>m. role m \<noteq> ''system'') pre"
  have a: "snd (foldl collect ([], []) pre) = snd (foldl collect ([], []) ?f)"
    using snd_collect_filter [of "[]" "[]" pre "[]"] by simp
  have st: "foldl collect ([], []) (pre @ s # post) = foldl collect ([], []) (?f @ s # post)"
    using h a by (simp add: collect_system)
  have "fst (foldl collect ([], []) (pre @ s # post)) = content s"
    using h by (simp add: collect_system fst_collect_no_system)
  then show "system (build_payload (pre @ s # post)) = (if content s = [] then None else Some (content s))"
    by (cases "foldl collect ([], []) (pre @ s # post)") (simp add: build_payload_def)
  show "build_payload (pre @ s # post) = build_payload (?f @ s # post)"
    unfolding build_payload_def st ..
qed

text \<open>Of two system messages, the second is the prompt and the first is not sent.\<close>

theorem system_prompt_is_last_system_message_witness:
  "Query (answers ''fine'') with_key two_systems = Inr ''fine''
   \<and> system (build_payload two_systems) = Some ''Be kind.''
   \<and> messages (build_payload two_systems)
       = [\<lparr>role = ''user'', content = ''hi''\<rparr>,
          \<lparr>role = ''user'', content = ''[Tool Output] done''\<rparr>,
          \<lparr>role = ''assistant'', content = ''ok''\<rparr>]
   \<and> build_payload two_systems = build_payload (tl two_systems)"
proof -
  let ?pre = "[\<lparr>role = ''system'', content = ''Be brief.''\<rparr>, \<lparr>role = ''user'', content = ''hi''\<rparr>]"
  let ?s = "\<lparr>role = ''system'', content = ''Be kind.''\<rparr>"
  let ?post = "[\<lparr>role = ''tool'', content = ''done''\<rparr>, \<lparr>role = ''assistant'', content = ''ok''\<rparr>]"
  have t: "two_systems = ?pre @ ?s # ?post"
    by (simp add: two_systems_def)
  have k: "apiKey with_key \<noteq> []" by (simp add: with_key_def)
  have h: "role ?s = ''system'' \<and> (\<forall>m \<in> set ?post. role m \<noteq> ''system'')" by simp
  note th = system_prompt_is_last_system_message [of with_key "answers ''fine''" two_systems ?s ?post ?pre]
  note c = th [THEN conjunct2, THEN conjunct2, THEN mp, OF h]
  have q: "Query (answers ''fine'') with_key two_systems = Inr ''fine''"
    using th [THEN conjunct1, THEN mp, OF k] by (simp add: read_response_def answers_def)
  have sys: "system (build_payload two_systems) = Some ''Be kind.''"
    unfolding t using c [THEN conjunct1] by simp
  have m: "messages (build_payload two_systems)
       = [\<lparr>role = ''user'', content = ''hi''\<rparr>,
          \<lparr>role = ''user'', content = ''[Tool Output] done''\<rparr>,
          \<lparr>role = ''assistant'', content = ''ok''\<rparr>]"
    by (simp add: build_payload_def two_systems_def collect_def)
  have eq: "build_payload two_systems = build_payload (tl two_systems)"
    unfolding t using c [THEN conjunct2] by simp
  from q sys m eq show ?thesis by blast
qed

subsection \<open>Saving and loading the transcript\<close>

lemma rune_size_le: "rune_size s \<le> length s"
  by (auto simp add: rune_size_def split: list.splits)

lemma coerce_valid: "valid_utf8 s \<Longrightarrow> coerce s = s"
  by (induction s rule: valid_utf8.induct) (auto split: if_splits)

lemma unhex_hex: "d < 16 \<Longrightarrow> unhex (hex d) = Some d"
proof -
  assume "d < 16"
  then have "d \<in> {0, 1, 2, 3, 4, 5, 6, 7, 8, 9, 10, 11, 12, 13, 14, 15}"
    by (simp only: insert_iff empty_iff) arith
  then show ?thesis
    by (auto simp add: unhex_def hex_def between_def byte_def)
qed

lemma rune_size_ascii: "byte b < 0x80 \<Longrightarrow> rune_size (b # bs) = 1"
  by (simp add: rune_size_def)

lemma rune_size_take:
  assumes "rune_size s \<noteq> 0"
  shows "rune_size (take (rune_size s) s @ t) = rune_size s"
proof (cases s)
  case Nil
  with assms show ?thesis by (simp add: rune_size_def)
next
  case s: (Cons b0 r)
  show ?thesis
  proof (cases "byte b0 < 0x80")
    case True
    with assms s show ?thesis by (simp add: rune_size_def)
  next
    case False
    show ?thesis
    proof (cases r)
      case Nil
      with assms s False show ?thesis by (auto simp add: rune_size_def split: if_splits)
    next
      case r: (Cons b1 r1)
      show ?thesis
      proof (cases "between 0xC2 0xDF b0")
        case True
        with assms s r False show ?thesis by (auto simp add: rune_size_def split: if_splits)
      next
        case two: False
        show ?thesis
        proof (cases r1)
          case Nil
          with assms s r False two show ?thesis by (auto simp add: rune_size_def split: if_splits)
        next
          case r1: (Cons b2 r2)
          show ?thesis
          proof (cases "between 0xE0 0xEF b0")
            case True
            with assms s r r1 False two show ?thesis
              by (auto simp add: rune_size_def split: if_splits)
          next
            case three: False
            show ?thesis
            proof (cases r2)
              case Nil
              with assms s r r1 False two three show ?thesis
                by (auto simp add: rune_size_def split: if_splits)
            next
              case (Cons b3 r3)
              with assms s r r1 False two three show ?thesis
                by (auto simp add: rune_size_def split: if_splits)
            qed
          qed
        qed
      qed
    qed
  qed
qed

lemma getu4_escape:
  assumes "byte b < 0x80"
  shows "getu4 (CHR ''u'' # CHR ''0'' # CHR ''0'' # hex (byte b div 16) # hex (byte b mod 16) # t)
           = Some (byte b)"
proof -
  have "byte b div 16 < 16" "byte b mod 16 < 16" using assms by auto
  then have "unhex (hex (byte b div 16)) = Some (byte b div 16)"
    "unhex (hex (byte b mod 16)) = Some (byte b mod 16)"
    by (simp_all add: unhex_hex)
  moreover have "unhex CHR ''0'' = Some 0"
    by (simp add: unhex_def between_def byte_def)
  ultimately show ?thesis
    by (simp add: getu4_def)
qed

lemma EncodeRune_ascii: "byte b < 0x80 \<Longrightarrow> EncodeRune (byte b) = [b]"
  by (simp add: EncodeRune_def byte_def)

lemma unquote_escape_byte:
  assumes "byte b < 0x80" "\<not> htmlSafe b"
  shows "unquote (escape_byte short b @ t) = map_option (\<lambda>(s, rest). (b # s, rest)) (unquote t)"
proof -
  consider "b = CHR 0x5C \<or> b = CHR 0x22" | "b = CHR 0x0A" | "b = CHR 0x0D" | "b = CHR 0x09"
    | "short" "b = CHR 0x08 \<or> b = CHR 0x0C"
    | "b \<noteq> CHR 0x5C" "b \<noteq> CHR 0x22" "b \<noteq> CHR 0x0A" "b \<noteq> CHR 0x0D" "b \<noteq> CHR 0x09"
      "\<not> (short \<and> (b = CHR 0x08 \<or> b = CHR 0x0C))"
    by blast
  then show ?thesis
  proof cases
    case 1
    then show ?thesis by (auto simp add: escape_byte_def)
  next
    case 2
    then show ?thesis by (simp add: escape_byte_def)
  next
    case 3
    then show ?thesis by (simp add: escape_byte_def)
  next
    case 4
    then show ?thesis by (simp add: escape_byte_def)
  next
    case 5
    then show ?thesis by (auto simp add: escape_byte_def)
  next
    case 6
    have "unescape_u (CHR ''u'' # CHR ''0'' # CHR ''0'' # hex (byte b div 16) # hex (byte b mod 16) # t)
            = Some (byte b, 5)"
      using assms(1) by (simp add: unescape_u_def getu4_escape)
    then show ?thesis
      using 6 assms(1) by (auto simp add: escape_byte_def EncodeRune_ascii)
  qed
qed


lemma char_of_values:
  "char_of (239::nat) = CHR 0xEF" "char_of (191::nat) = CHR 0xBF" "char_of (189::nat) = CHR 0xBD"
  "char_of (226::nat) = CHR 0xE2" "char_of (128::nat) = CHR 0x80"
  "char_of (168::nat) = CHR 0xA8" "char_of (169::nat) = CHR 0xA9"
  by code_simp+

lemma EncodeRune_replacement: "EncodeRune 0xFFFD = replacement"
  by (simp add: EncodeRune_def replacement_def char_of_values)

lemma unescape_u_fffd:
  "unescape_u (CHR ''u'' # CHR ''f'' # CHR ''f'' # CHR ''f'' # CHR ''d'' # t) = Some (0xFFFD, 5)"
  by (simp add: unescape_u_def getu4_def unhex_def between_def byte_def)

lemma unescape_u_2028:
  "unescape_u (CHR ''u'' # CHR ''2'' # CHR ''0'' # CHR ''2'' # CHR ''8'' # t) = Some (0x2028, 5)"
  "unescape_u (CHR ''u'' # CHR ''2'' # CHR ''0'' # CHR ''2'' # CHR ''9'' # t) = Some (0x2029, 5)"
  by (simp_all add: unescape_u_def getu4_def unhex_def between_def byte_def)

lemma EncodeRune_2028:
  "EncodeRune 0x2028 = [CHR 0xE2, CHR 0x80, CHR 0xA8]"
  "EncodeRune 0x2029 = [CHR 0xE2, CHR 0x80, CHR 0xA9]"
  by (simp_all add: EncodeRune_def char_of_values)

lemma rune_size_separator:
  "rune_size (CHR 0xE2 # CHR 0x80 # CHR 0xA8 # t) = 3"
  "rune_size (CHR 0xE2 # CHR 0x80 # CHR 0xA9 # t) = 3"
  by (simp_all add: rune_size_def between_def byte_def)

lemma unquote_escape:
  "unquote (escape short s @ CHR 0x22 # rest) = Some (coerce s, rest)"
proof (induction short s rule: escape.induct)
  case (1 short)
  show ?case by simp
next
  case (2 short b bs)
  show ?case
  proof (cases "byte b < 0x80")
    case True
    note ascii = this
    then have size: "rune_size (b # bs) = 1" by (rule rune_size_ascii)
    show ?thesis
    proof (cases "htmlSafe b")
      case True
      with ascii 2(1) size show ?thesis
        by (simp add: htmlSafe_def)
    next
      case False
      with ascii 2(2) size unquote_escape_byte [OF ascii False] show ?thesis
        by simp
    qed
  next
    case False
    note high = this
    show ?thesis
    proof (cases "rune_size (b # bs) = 0")
      case True
      with high 2(3) show ?thesis
        by (simp add: unescape_u_fffd EncodeRune_replacement)
    next
      case False
      note ok = this
      let ?n = "rune_size (b # bs)"
      show ?thesis
      proof (cases "take 3 (b # bs) = [CHR 0xE2, CHR 0x80, CHR 0xA8]
                    \<or> take 3 (b # bs) = [CHR 0xE2, CHR 0x80, CHR 0xA9]")
        case True
        then obtain t where t: "b # bs = CHR 0xE2 # CHR 0x80 # CHR 0xA8 # t
                                \<or> b # bs = CHR 0xE2 # CHR 0x80 # CHR 0xA9 # t"
          by (metis append_take_drop_id append_Cons append_Nil)
        from 2(4) [OF high ok True]
        have ih: "unquote (escape short (drop 3 (b # bs)) @ CHR 0x22 # rest)
                    = Some (coerce (drop 3 (b # bs)), rest)" .
        from t show ?thesis
        proof
          assume e: "b # bs = CHR 0xE2 # CHR 0x80 # CHR 0xA8 # t"
          then have bs: "b = CHR 0xE2" "bs = CHR 0x80 # CHR 0xA8 # t" by simp_all
          have h: "hex (byte (bs ! 1) mod 16) = CHR ''8''"
            by (simp add: bs hex_def byte_def)
          show ?thesis
            using ih high
            by (simp add: bs h unescape_u_2028 EncodeRune_2028 rune_size_separator hex_def byte_def)
        next
          assume e: "b # bs = CHR 0xE2 # CHR 0x80 # CHR 0xA9 # t"
          then have bs: "b = CHR 0xE2" "bs = CHR 0x80 # CHR 0xA9 # t" by simp_all
          show ?thesis
            using ih high
            by (simp add: bs unescape_u_2028 EncodeRune_2028 rune_size_separator hex_def byte_def)
        qed
      next
        case False
        from 2(5) [OF high ok False]
        have ih: "unquote (escape short (drop ?n (b # bs)) @ CHR 0x22 # rest)
                    = Some (coerce (drop ?n (b # bs)), rest)" .
        let ?t = "escape short (drop ?n (b # bs)) @ CHR 0x22 # rest"
        obtain u where u: "take ?n (b # bs) = b # u"
          using ok by (cases ?n) simp_all
        have len: "length (take ?n (b # bs)) = ?n"
          using rune_size_le [of "b # bs"] by simp
        have rs: "rune_size (b # u @ ?t) = ?n"
          using rune_size_take [OF ok, of ?t] u by simp
        have tk: "take ?n (b # u @ ?t) = b # u" "drop ?n (b # u @ ?t) = ?t"
          using len u by (metis append_Cons append_eq_conv_conj)+
        have b: "b \<noteq> CHR 0x22" "b \<noteq> CHR 0x5C" "\<not> byte b < 0x20"
          using high by (auto simp add: byte_def)
        have "unquote (b # u @ ?t) = Some (b # u @ coerce (drop ?n (b # bs)), rest)"
          using b high ok
          by (subst unquote.simps) (simp add: rs tk ih del: unquote.simps)
        moreover have "escape short (b # bs) = b # u @ escape short (drop ?n (b # bs))"
          using high ok False u by simp
        moreover have "coerce (b # bs) = b # u @ coerce (drop ?n (b # bs))"
          using ok u by simp
        ultimately show ?thesis by simp
      qed
    qed
  qed
qed

lemma tokenize_quote:
  "tokenize (quote short s @ t) = map_option (Cons (Str (coerce s))) (tokenize t)"
  by (simp add: quote_def unquote_escape is_space_def)

lemma tokenize_role_key:
  "tokenize (''    \"role\": '' @ t) = map_option (\<lambda>ts. Str ''role'' # Colon # ts) (tokenize t)"
  by (simp add: is_space_def byte_def option.map_comp comp_def)

lemma tokenize_content_key:
  "tokenize (''    \"content\": '' @ t) = map_option (\<lambda>ts. Str ''content'' # Colon # ts) (tokenize t)"
  by (simp add: is_space_def byte_def option.map_comp comp_def)

lemma tokenize_object:
  "tokenize (object_text short m @ t) = map_option (\<lambda>ts. object_tokens m @ ts) (tokenize t)"
proof -
  have 1: "tokenize (''  {'' @ [NL] @ u) = map_option (Cons LBrace) (tokenize u)" for u
    by (simp add: is_space_def NL_def)
  have 2: "tokenize ('','' @ [NL] @ u) = map_option (Cons Comma) (tokenize u)" for u
    by (simp add: is_space_def NL_def)
  have 3: "tokenize ([NL] @ ''  }'' @ u) = map_option (Cons RBrace) (tokenize u)" for u
    by (simp add: is_space_def NL_def)
  have "object_text short m @ t =
          ''  {'' @ [NL] @ (''    \"role\": '' @ (quote short (role m) @ ('','' @ [NL]
           @ (''    \"content\": '' @ (quote short (content m) @ ([NL] @ ''  }'' @ t))))))"
    by (simp add: object_text_def)
  then show ?thesis
    by (simp only: 1 2 3 tokenize_role_key tokenize_content_key tokenize_quote)
       (simp add: object_tokens_def option.map_comp comp_def)
qed

lemma tokenize_objects:
  "tokenize (objects_text short ms @ t) = map_option (\<lambda>ts. objects_tokens ms @ ts) (tokenize t)"
proof (induction short ms rule: objects_text.induct)
  case (1 short)
  show ?case by (simp add: option.map_ident)
next
  case (2 short m)
  show ?case by (simp add: tokenize_object)
next
  case (3 short m m' ms)
  have c: "tokenize ('','' @ [NL] @ u) = map_option (Cons Comma) (tokenize u)" for u
    by (simp add: is_space_def NL_def)
  have "objects_text short (m # m' # ms) @ t = object_text short m @ ('','' @ [NL] @ (objects_text short (m' # ms) @ t))"
    by simp
  then show ?case
    by (simp only: tokenize_object c "3.IH")
       (simp add: option.map_comp comp_def)
qed

lemma tokenize_MarshalIndent:
  "tokenize (MarshalIndent_messages short ms) = Some (LBracket # objects_tokens ms @ [RBracket])"
proof (cases "ms = []")
  case True
  then show ?thesis by (simp add: MarshalIndent_messages_def is_space_def)
next
  case False
  have o: "tokenize (''['' @ [NL] @ u) = map_option (Cons LBracket) (tokenize u)" for u
    by (simp add: is_space_def NL_def)
  have c: "tokenize ([NL] @ '']'') = Some [RBracket]"
    by (simp add: is_space_def NL_def)
  have "MarshalIndent_messages short ms = ''['' @ [NL] @ (objects_text short ms @ ([NL] @ '']''))"
    using False by (simp add: MarshalIndent_messages_def)
  then show ?thesis
    by (simp only: o tokenize_objects c) simp
qed

lemma elements_last_object:
  "elements (object_tokens m @ [RBracket]) = Some [coerce_message m]"
  by (subst elements.simps) (simp add: object_tokens_def put_def coerce_message_def)

lemma elements_object:
  "elements (object_tokens m @ Comma # ts) = map_option (Cons (coerce_message m)) (elements ts)"
  by (subst elements.simps) (simp add: object_tokens_def put_def coerce_message_def)

lemma elements_objects:
  "ms \<noteq> [] \<Longrightarrow> elements (objects_tokens ms @ [RBracket]) = Some (map coerce_message ms)"
proof (induction ms rule: objects_tokens.induct)
  case 1
  then show ?case by simp
next
  case (2 m)
  show ?case by (simp add: elements_last_object)
next
  case (3 m m' ms)
  then show ?case by (simp add: elements_object)
qed

lemma Unmarshal_MarshalIndent:
  "Unmarshal_messages (MarshalIndent_messages short ms) = Inr (map coerce_message ms)"
proof (cases ms)
  case Nil
  then show ?thesis
    by (simp add: Unmarshal_messages_def tokenize_MarshalIndent document_def)
next
  case (Cons m ms')
  then have ne: "ms \<noteq> []" by simp
  have "objects_tokens ms @ [RBracket] \<noteq> [RBracket]"
    using Cons by (cases ms') (simp_all add: object_tokens_def)
  then have "document (LBracket # objects_tokens ms @ [RBracket]) = elements (objects_tokens ms @ [RBracket])"
    by (simp add: document_def split: list.splits token.splits)
  then show ?thesis
    using elements_objects [OF ne]
    by (simp add: Unmarshal_messages_def tokenize_MarshalIndent)
qed

lemma coerce_message_valid: "valid_message m \<Longrightarrow> coerce_message m = m"
  by (simp add: valid_message_def coerce_message_def coerce_valid)

lemma Unmarshal_MarshalIndent_valid:
  "list_all valid_message ms \<Longrightarrow> Unmarshal_messages (MarshalIndent_messages short ms) = Inr ms"
  by (simp add: Unmarshal_MarshalIndent list_all_iff coerce_message_valid map_idI)

text \<open>
  Saving and then loading gives back the transcript with every string coerced to valid
  UTF-8. The agent that loads may be another one with the same context file, as the one
  \<^verbatim>\<open>NewAgent\<close> builds at the next start.
\<close>

lemma save_then_load_coerced:
  assumes "contextFile a' = contextFile a"
    and "write_error (disk w) (contextFile a) = None"
    and "read_error (disk w) (contextFile a) = None"
    and "\<forall>m. nodes (disk w) (contextFile a) \<noteq> Some (Directory m)"
  shows "\<exists>w'. SaveContext lib a w = (None, w')
           \<and> loadContext a' w' = (None, a'\<lparr>ctx := map coerce_message (ctx a)\<rparr>)"
proof -
  let ?data = "MarshalIndent_messages (short_escapes lib) (ctx a)"
  let ?mode = "case nodes (disk w) (contextFile a) of Some (RegularFile c m) \<Rightarrow> m | _ \<Rightarrow> 420"
  let ?d = "(disk w)\<lparr>nodes := (nodes (disk w))(contextFile a \<mapsto> RegularFile ?data ?mode)\<rparr>"
  have "WriteFile (disk w) (contextFile a) ?data 420 = Inr ?d"
    using assms(2,4)
    by (simp add: WriteFile_def split: option.splits node.splits)
  moreover have "ReadFile ?d (contextFile a) = Inr ?data"
    using assms(3) by (simp add: ReadFile_def)
  ultimately obtain d where d: "WriteFile (disk w) (contextFile a) ?data 420 = Inr d"
    and r: "ReadFile d (contextFile a) = Inr ?data"
    by blast
  have "SaveContext lib a w = (None, w\<lparr>disk := d\<rparr>)"
    using d by (simp add: SaveContext_def)
  moreover have "loadContext a' (w\<lparr>disk := d\<rparr>) = (None, a'\<lparr>ctx := map coerce_message (ctx a)\<rparr>)"
    using r assms(1) by (simp add: loadContext_def Unmarshal_MarshalIndent)
  ultimately show ?thesis by blast
qed

text \<open>
  C6, as the code has it. For every transcript whose roles and contents are valid UTF-8,
  \<^verbatim>\<open>SaveContext\<close> and then \<^verbatim>\<open>loadContext\<close> (the context file being one the
  operating system lets the agent write and read) succeed and restore the very sequence
  of messages that was saved.
\<close>

theorem save_then_load:
  assumes "list_all valid_message (ctx a)"
    and "contextFile a' = contextFile a"
    and "write_error (disk w) (contextFile a) = None"
    and "read_error (disk w) (contextFile a) = None"
    and "\<forall>m. nodes (disk w) (contextFile a) \<noteq> Some (Directory m)"
  shows "\<exists>w'. SaveContext lib a w = (None, w') \<and> loadContext a' w' = (None, a'\<lparr>ctx := ctx a\<rparr>)"
proof -
  have "map coerce_message (ctx a) = ctx a"
    using assms(1) by (simp add: list_all_iff coerce_message_valid map_idI)
  with save_then_load_coerced [OF assms(2-5)] show ?thesis by simp
qed

text \<open>A transcript with a newline, \<^verbatim>\<open><\<close>, quotes and an accented letter comes back as it was.\<close>

theorem save_then_load_witness:
  "\<exists>w'. SaveContext offline saved_agent fresh_world = (None, w')
      \<and> loadContext fresh_agent w' = (None, fresh_agent\<lparr>ctx := ctx saved_agent\<rparr>)"
proof -
  have v: "list_all valid_message (ctx saved_agent)"
    by code_simp
  have f: "contextFile fresh_agent = contextFile saved_agent"
    by (simp add: saved_agent_def)
  have io: "write_error (disk fresh_world) (contextFile saved_agent) = None"
    "read_error (disk fresh_world) (contextFile saved_agent) = None"
    "\<forall>m. nodes (disk fresh_world) (contextFile saved_agent) \<noteq> Some (Directory m)"
    by (simp_all add: fresh_world_def no_file_def)
  show ?thesis
    by (rule save_then_load [OF v f io])
qed

text \<open>
  C6 as stated fails on a string that is not valid UTF-8: the content \<^verbatim>\<open>0xFF\<close> comes
  back as the three bytes of \<^verbatim>\<open>U+FFFD\<close>.
\<close>

theorem save_then_load_counterexample:
  "fst (loadContext latin1_agent (snd (SaveContext offline latin1_agent fresh_world))) = None
   \<and> ctx (snd (loadContext latin1_agent (snd (SaveContext offline latin1_agent fresh_world))))
       = [\<lparr>role = ''tool'', content = [CHR 0xEF, CHR 0xBF, CHR 0xBD]\<rparr>]
   \<and> ctx (snd (loadContext latin1_agent (snd (SaveContext offline latin1_agent fresh_world))))
       \<noteq> ctx latin1_agent"
proof -
  have c: "map coerce_message (ctx latin1_agent)
             = [\<lparr>role = ''tool'', content = [CHR 0xEF, CHR 0xBF, CHR 0xBD]\<rparr>]"
    by code_simp
  have io: "contextFile latin1_agent = contextFile latin1_agent"
    "write_error (disk fresh_world) (contextFile latin1_agent) = None"
    "read_error (disk fresh_world) (contextFile latin1_agent) = None"
    "\<forall>m. nodes (disk fresh_world) (contextFile latin1_agent) \<noteq> Some (Directory m)"
    by (simp_all add: fresh_world_def no_file_def)
  from save_then_load_coerced [OF io]
  obtain w' where "SaveContext offline latin1_agent fresh_world = (None, w')"
    and "loadContext latin1_agent w' = (None, latin1_agent\<lparr>ctx := map coerce_message (ctx latin1_agent)\<rparr>)"
    by blast
  then show ?thesis
    by (simp add: c) (simp add: latin1_agent_def)
qed

text \<open>So does a start of the program after the save: \<^verbatim>\<open>NewAgent\<close> loads what was saved.\<close>

lemma NewAgent_after_SaveContext:
  assumes "list_all valid_message (ctx a)"
    and "write_error (disk w) (contextFile a) = None"
    and "read_error (disk w) (contextFile a) = None"
    and "\<forall>m. nodes (disk w) (contextFile a) \<noteq> Some (Directory m)"
  shows "\<exists>w' a'. SaveContext lib a w = (None, w')
           \<and> NewAgent lib ks (contextFile a) w' = Inr a' \<and> ctx a' = ctx a"
proof -
  let ?ag = "\<lparr>ctx = [\<lparr>role = ''system'', content = systemMessage NewAgent_toolRegistry ks\<rparr>],
              contextFile = contextFile a,
              llmClient = NewClient lib,
              toolRegistry = NewAgent_toolRegistry\<rparr>"
  have c: "map coerce_message (ctx a) = ctx a"
    using assms(1) by (simp add: list_all_iff coerce_message_valid map_idI)
  have "contextFile ?ag = contextFile a" by simp
  from save_then_load_coerced [OF this assms(2-4)] c
  obtain w' where "SaveContext lib a w = (None, w')"
    and "loadContext ?ag w' = (None, ?ag\<lparr>ctx := ctx a\<rparr>)"
    by auto
  then show ?thesis
    by (simp add: NewAgent_def)
qed

end
